theory Spec2Isabelle
  imports Main
begin

section \<open>CreatureAI: boundary containment\<close>

text \<open>
  \<^verbatim>\<open>CreatureAI.cpp\<close> works on \<^verbatim>\<open>Position\<close> values made of floats. The
  model keeps the position type abstract (\<open>'p\<close>): an \<^verbatim>\<open>AreaBoundary\<close> is its
  predicate \<^verbatim>\<open>IsWithinBoundary\<close>, and a \<^verbatim>\<open>CreatureBoundary\<close> is the vector
  of those, in order.
\<close>

type_synonym 'p AreaBoundary = "'p \<Rightarrow> bool"

type_synonym 'p CreatureBoundary = "'p AreaBoundary list"

text \<open>
  The members of \<^verbatim>\<open>CreatureAI\<close> that the boundary code reads: the position of
  \<^verbatim>\<open>me\<close>, its home position, the nullable pointer \<^verbatim>\<open>_boundary\<close> and the flag
  \<^verbatim>\<open>_negateBoundary\<close>.
\<close>

record 'p CreatureAI =
  me_GetPosition :: 'p
  me_GetHomePosition :: 'p
  boundary :: "'p CreatureBoundary option"
  negateBoundary :: bool

text \<open>
  \<^verbatim>\<open>CreatureAI::IsInBounds\<close>: the loop returns false at the first area boundary that
  does not hold the position, and true after the last one.
\<close>

fun IsInBounds :: "'p CreatureBoundary \<Rightarrow> 'p \<Rightarrow> bool" where
  "IsInBounds [] pos = True"
| "IsInBounds (areaBoundary # rest) pos =
     (if \<not> areaBoundary pos then False else IsInBounds rest pos)"

text \<open>
  \<^verbatim>\<open>CreatureAI::IsInBoundary\<close>: a null \<^verbatim>\<open>_boundary\<close> answers true before anything
  else is looked at; a null \<^verbatim>\<open>who\<close> stands for \<^verbatim>\<open>me\<close>.
\<close>

definition IsInBoundary :: "'p CreatureAI \<Rightarrow> 'p option \<Rightarrow> bool" where
  "IsInBoundary ai who =
     (case boundary ai of
        None \<Rightarrow> True
      | Some b \<Rightarrow>
          (let who' = (case who of None \<Rightarrow> me_GetPosition ai | Some p \<Rightarrow> p)
           in IsInBounds b who' \<noteq> negateBoundary ai))"

section \<open>CreatureAI: the boundary flood fill\<close>

type_synonym coordinate = "int \<times> int"

definition BOUNDARY_VISUALIZE_FAILSAFE_LIMIT :: int where
  "BOUNDARY_VISUALIZE_FAILSAFE_LIMIT = 750"

definition IN_MILLISECONDS :: nat where
  "IN_MILLISECONDS = 1000"

text \<open>
  One call of \<^verbatim>\<open>owner->SummonCreature\<close>: the grid cell the marker stands on, the
  despawn time (\<^verbatim>\<open>duration * IN_MILLISECONDS\<close> in \<^verbatim>\<open>uint32\<close>), and whether the
  cell had an out-of-bounds neighbour (a marker that has none is also flagged
  \<^verbatim>\<open>UNIT_FLAG_NOT_SELECTABLE\<close>).
\<close>

record marker =
  cell :: coordinate
  despawnTime :: nat
  hasOutOfBoundsNeighbor :: bool

text \<open>
  The locals of the fill loop: the queue \<^verbatim>\<open>Q\<close>, the sets \<^verbatim>\<open>alreadyChecked\<close> and
  \<^verbatim>\<open>outOfBounds\<close>, the flag \<^verbatim>\<open>boundsWarning\<close>, and the markers summoned so far.
\<close>

record fill_state =
  Q :: "coordinate list"
  alreadyChecked :: "coordinate set"
  outOfBounds :: "coordinate set"
  boundsWarning :: bool
  markers :: "marker list"

definition offsets :: "coordinate list" where
  "offsets = [(1, 0), (0, 1), (-1, 0), (0, -1)]"

text \<open>
  The body of the inner \<^verbatim>\<open>for\<close> loop, for one offset. \<open>inb next\<close> stands for
  \<^verbatim>\<open>IsInBoundary(&nextPos)\<close>, where \<^verbatim>\<open>nextPos\<close> is the start position moved by
  \<open>next\<close> steps. The second component is the local \<^verbatim>\<open>hasOutOfBoundsNeighbor\<close>.
  The coordinates are \<^verbatim>\<open>int32\<close> in the source; from the start cell they stay within
  the failsafe limit plus one, so the sums are written on \<open>int\<close>.
\<close>

definition visit :: "(coordinate \<Rightarrow> bool) \<Rightarrow> coordinate \<Rightarrow> fill_state \<times> bool \<Rightarrow> coordinate
    \<Rightarrow> fill_state \<times> bool" where
  "visit inb front sh off =
     (let s = fst sh; h = snd sh;
          next = (fst front + fst off, snd front + snd off)
      in if fst next > BOUNDARY_VISUALIZE_FAILSAFE_LIMIT
            \<or> fst next < - BOUNDARY_VISUALIZE_FAILSAFE_LIMIT
            \<or> snd next > BOUNDARY_VISUALIZE_FAILSAFE_LIMIT
            \<or> snd next < - BOUNDARY_VISUALIZE_FAILSAFE_LIMIT
         then (s\<lparr>boundsWarning := True\<rparr>, h)
         else if next \<notin> alreadyChecked s
         then (if inb next
               then (s\<lparr>Q := Q s @ [next],
                       alreadyChecked := insert next (alreadyChecked s)\<rparr>, h)
               else (s\<lparr>outOfBounds := insert next (outOfBounds s),
                       alreadyChecked := insert next (alreadyChecked s)\<rparr>, True))
         else if next \<in> outOfBounds s then (s, True)
         else (s, h))"

text \<open>
  One turn of the \<^verbatim>\<open>while\<close> loop on the cell at the front of the queue: the four
  neighbours, the marker, then \<^verbatim>\<open>Q.pop()\<close>.
\<close>

definition expand :: "(coordinate \<Rightarrow> bool) \<Rightarrow> bool \<Rightarrow> nat \<Rightarrow> coordinate \<Rightarrow> fill_state
    \<Rightarrow> fill_state" where
  "expand inb fill duration front s =
     (let sh = foldl (visit inb front) (s, False) offsets;
          s1 = fst sh; h = snd sh;
          s2 = (if fill \<or> h
                then s1\<lparr>markers := markers s1 @
                       [\<lparr>cell = front,
                         despawnTime = (duration * IN_MILLISECONDS) mod 2 ^ 32,
                         hasOutOfBoundsNeighbor = h\<rparr>]\<rparr>
                else s1)
      in s2\<lparr>Q := tl (Q s2)\<rparr>)"

text \<open>
  The \<^verbatim>\<open>while (!Q.empty())\<close> loop, from any state of the locals.
\<close>

function flood :: "(coordinate \<Rightarrow> bool) \<Rightarrow> bool \<Rightarrow> nat \<Rightarrow> fill_state \<Rightarrow> fill_state" where
  "flood inb fill duration s =
     (case Q s of
        [] \<Rightarrow> s
      | front # _ \<Rightarrow> flood inb fill duration (expand inb fill duration front s))"
  by pat_completeness auto

text \<open>
  The cells the loop takes from the front of the queue, in the order of its turns: the
  same recursion as \<^const>\<open>flood\<close>, returning the successive values of \<^verbatim>\<open>front\<close>.
\<close>

function expanded :: "(coordinate \<Rightarrow> bool) \<Rightarrow> bool \<Rightarrow> nat \<Rightarrow> fill_state \<Rightarrow> coordinate list" where
  "expanded inb fill duration s =
     (case Q s of
        [] \<Rightarrow> []
      | front # _ \<Rightarrow> front # expanded inb fill duration (expand inb fill duration front s))"
  by pat_completeness auto

text \<open>The locals as the loop finds them: \<^verbatim>\<open>Q.push({ 0,0 })\<close> on empty sets.\<close>

definition fill_init :: fill_state where
  "fill_init = \<lparr>Q = [(0, 0)], alreadyChecked = {}, outOfBounds = {},
                 boundsWarning = False, markers = []\<rparr>"

text \<open>
  What \<^verbatim>\<open>VisualizeBoundary\<close> takes from outside this file: the three
  \<^verbatim>\<open>LANG_CREATURE_...\<close> enumerators of \<^verbatim>\<open>Language.h\<close> (string ids, whose values
  the source file does not show), and the float arithmetic that moves a position by a
  number of steps, \<^verbatim>\<open>Position(x + i * STEP_SIZE, y + j * STEP_SIZE, z)\<close>.
\<close>

record 'p visualize_env =
  LANG_CREATURE_MOVEMENT_NOT_BOUNDED :: int
  LANG_CREATURE_NO_INTERIOR_POINT_FOUND :: int
  LANG_CREATURE_MOVEMENT_MAYBE_UNBOUNDED :: int
  stepPosition :: "'p \<Rightarrow> coordinate \<Rightarrow> 'p"

text \<open>
  The choice of \<^verbatim>\<open>startPosition\<close>: the position of \<^verbatim>\<open>owner\<close> (the unit that asked),
  else the position of \<^verbatim>\<open>me\<close>, else the home position of \<^verbatim>\<open>me\<close>; \<open>None\<close> when
  the function returns \<^verbatim>\<open>LANG_CREATURE_NO_INTERIOR_POINT_FOUND\<close>.
\<close>

definition startPosition :: "'p CreatureAI \<Rightarrow> 'p \<Rightarrow> 'p option" where
  "startPosition ai owner_GetPosition =
     (if \<not> IsInBoundary ai (Some owner_GetPosition)
      then (if \<not> IsInBoundary ai (Some (me_GetPosition ai))
            then (if \<not> IsInBoundary ai (Some (me_GetHomePosition ai))
                  then None
                  else Some (me_GetHomePosition ai))
            else Some (me_GetPosition ai))
      else Some owner_GetPosition)"

text \<open>\<^verbatim>\<open>IsInBoundary(&nextPos)\<close> for the cell \<open>next\<close>, counted from \<open>start\<close>.\<close>

definition cell_in_boundary :: "'p visualize_env \<Rightarrow> 'p CreatureAI \<Rightarrow> 'p \<Rightarrow> coordinate \<Rightarrow> bool" where
  "cell_in_boundary env ai start next = IsInBoundary ai (Some (stepPosition env start next))"

text \<open>
  \<^verbatim>\<open>CreatureAI::VisualizeBoundary\<close>. \<open>owner\<close> is the position of the unit that
  asked, \<open>None\<close> for a null pointer. The result is the returned \<^verbatim>\<open>int32\<close> and the
  markers summoned, each with the start position it is placed from.
\<close>

definition VisualizeBoundary :: "'p visualize_env \<Rightarrow> 'p CreatureAI \<Rightarrow> nat \<Rightarrow> 'p option \<Rightarrow> bool
    \<Rightarrow> int \<times> ('p \<times> marker) list" where
  "VisualizeBoundary env ai duration owner fill =
     (case owner of
        None \<Rightarrow> (- 1, [])
      | Some owner_GetPosition \<Rightarrow>
          (if boundary ai = None \<or> boundary ai = Some []
           then (LANG_CREATURE_MOVEMENT_NOT_BOUNDED env, [])
           else (case startPosition ai owner_GetPosition of
                   None \<Rightarrow> (LANG_CREATURE_NO_INTERIOR_POINT_FOUND env, [])
                 | Some start \<Rightarrow>
                     (let r = flood (cell_in_boundary env ai start) fill duration fill_init
                      in (if boundsWarning r
                          then LANG_CREATURE_MOVEMENT_MAYBE_UNBOUNDED env else 0,
                          map (Pair start) (markers r))))))"

text \<open>
  Vocabulary for the statements about the fill: the grid within the failsafe limit, a
  cell beyond it, and a cell one of whose four neighbours is beyond it.
\<close>

definition box :: "coordinate set" where
  "box = {- BOUNDARY_VISUALIZE_FAILSAFE_LIMIT .. BOUNDARY_VISUALIZE_FAILSAFE_LIMIT}
       \<times> {- BOUNDARY_VISUALIZE_FAILSAFE_LIMIT .. BOUNDARY_VISUALIZE_FAILSAFE_LIMIT}"

definition beyond_limit :: "coordinate \<Rightarrow> bool" where
  "beyond_limit c =
     (fst c > BOUNDARY_VISUALIZE_FAILSAFE_LIMIT \<or> fst c < - BOUNDARY_VISUALIZE_FAILSAFE_LIMIT
      \<or> snd c > BOUNDARY_VISUALIZE_FAILSAFE_LIMIT \<or> snd c < - BOUNDARY_VISUALIZE_FAILSAFE_LIMIT)"

definition neighbours :: "coordinate \<Rightarrow> coordinate list" where
  "neighbours c = map (\<lambda>off. (fst c + fst off, snd c + snd off)) offsets"

definition has_neighbour_beyond_limit :: "coordinate \<Rightarrow> bool" where
  "has_neighbour_beyond_limit c = list_ex beyond_limit (neighbours c)"

text \<open>
  The cells joined to the start cell by steps to a neighbour that is within the limit and
  in the boundary. The start cell itself is taken as it is: the loop pushes it without a
  test.
\<close>

inductive fill_reachable :: "(coordinate \<Rightarrow> bool) \<Rightarrow> coordinate \<Rightarrow> bool"
  for inb :: "coordinate \<Rightarrow> bool" where
  start: "fill_reachable inb (0, 0)"
| step: "fill_reachable inb c \<Longrightarrow> n \<in> set (neighbours c) \<Longrightarrow> \<not> beyond_limit n \<Longrightarrow> inb n
         \<Longrightarrow> fill_reachable inb n"

definition fill_measure :: "fill_state \<Rightarrow> nat" where
  "fill_measure s = 2 * card (box - alreadyChecked s) + length (Q s)"

section \<open>CreatureAI: evade mode and victim selection\<close>

text \<open>
  \<^verbatim>\<open>ReactStates\<close> is declared outside this file; the code names
  \<^verbatim>\<open>REACT_PASSIVE\<close> and \<^verbatim>\<open>REACT_AGGRESSIVE\<close>, and \<^verbatim>\<open>REACT_DEFENSIVE\<close> is
  the state that is neither.
\<close>

datatype ReactStates = REACT_PASSIVE | REACT_DEFENSIVE | REACT_AGGRESSIVE

text \<open>
  The calls that the evade and victim code makes on \<^verbatim>\<open>me\<close>, its threat manager, its
  motion master and the AI's own virtual methods. Their bodies are outside this file: the
  model records each call, in order, in the field \<open>calls\<close>.
\<close>

datatype 'u call =
    RemoveAurasOnEvade
  | ClearAllThreat
  | CombatStop bool
  | SetLootRecipient "'u option"
  | ResetPlayerDamageReq
  | SetLastDamagedTime nat
  | SetCannotReachTarget bool
  | DoNotReacquireTarget
  | MotionMaster_Clear
  | MotionMaster_MoveFollow 'u
  | AddUnitState_UNIT_STATE_EVADE
  | MotionMaster_MoveTargetedHome
  | Reset
  | AttackStart 'u
  | AttackStop
  | EngageWithTarget 'u

text \<open>
  What the code reads from \<^verbatim>\<open>me\<close>: \<^verbatim>\<open>IsAlive()\<close>, \<^verbatim>\<open>IsInEvadeMode()\<close> (the unit
  state \<^verbatim>\<open>UNIT_STATE_EVADE\<close>), \<^verbatim>\<open>IsEngaged()\<close>, \<^verbatim>\<open>IsInCombat()\<close>, the react
  state, \<^verbatim>\<open>GetVictim()\<close>, whether \<^verbatim>\<open>GetVehicle()\<close> is non-null, and
  \<^verbatim>\<open>GetCharmerOrOwner()\<close>. A recorded call leaves these fields as they are, except
  \<^verbatim>\<open>AddUnitState(UNIT_STATE_EVADE)\<close>, which sets the evade state.
\<close>

record 'u Creature =
  IsAlive :: bool
  IsInEvadeMode :: bool
  IsEngaged :: bool
  IsInCombat :: bool
  reactState :: ReactStates
  GetVictim :: "'u option"
  GetVehicle :: bool
  GetCharmerOrOwner :: "'u option"
  calls :: "'u call list"

definition do_call :: "'u call \<Rightarrow> 'u Creature \<Rightarrow> 'u Creature" where
  "do_call c me = me\<lparr>calls := calls me @ [c]\<rparr>"

text \<open>
  What the victim and perception code asks of code outside this file: the result of
  \<^verbatim>\<open>me->SelectVictim()\<close>, of \<^verbatim>\<open>me->IsFocusing(nullptr, true)\<close> and of
  \<^verbatim>\<open>me->CanStartAttack(who, force)\<close>, and what the virtual \<^verbatim>\<open>AttackStart\<close> does to
  the creature (the code reads \<^verbatim>\<open>GetVictim()\<close> right after it).
\<close>

record 'u creature_env =
  SelectVictim :: "'u Creature \<Rightarrow> 'u option"
  IsFocusing :: "'u Creature \<Rightarrow> bool"
  CanStartAttack :: "'u Creature \<Rightarrow> 'u \<Rightarrow> bool \<Rightarrow> bool"
  AttackStart_effect :: "'u \<Rightarrow> 'u Creature \<Rightarrow> 'u Creature"

text \<open>\<^verbatim>\<open>CreatureAI::_EnterEvadeMode\<close>: the returned flag and the creature after it.\<close>

definition underscore_EnterEvadeMode :: "'u Creature \<Rightarrow> bool \<times> 'u Creature" where
  "underscore_EnterEvadeMode me =
     (if \<not> IsAlive me then (False, me)
      else
        (let me1 = do_call RemoveAurasOnEvade me;
             me2 = do_call ClearAllThreat me1;
             me3 = do_call (CombatStop True) me2;
             me4 = do_call (SetLootRecipient None) me3;
             me5 = do_call ResetPlayerDamageReq me4;
             me6 = do_call (SetLastDamagedTime 0) me5;
             me7 = do_call (SetCannotReachTarget False) me6;
             me8 = do_call DoNotReacquireTarget me7
         in if IsInEvadeMode me8 then (False, me8) else (True, me8)))"

text \<open>\<^verbatim>\<open>CreatureAI::EnterEvadeMode\<close>.\<close>

definition EnterEvadeMode :: "'u Creature \<Rightarrow> 'u Creature" where
  "EnterEvadeMode me =
     (let r = underscore_EnterEvadeMode me; me1 = snd r
      in if \<not> fst r then me1
         else
           (let me2 =
                  (if \<not> GetVehicle me1
                   then (case GetCharmerOrOwner me1 of
                           Some owner \<Rightarrow>
                             do_call (MotionMaster_MoveFollow owner)
                               (do_call MotionMaster_Clear me1)
                         | None \<Rightarrow>
                             do_call MotionMaster_MoveTargetedHome
                               ((do_call AddUnitState_UNIT_STATE_EVADE me1)
                                  \<lparr>IsInEvadeMode := True\<rparr>))
                   else me1)
            in do_call Reset me2))"

text \<open>\<^verbatim>\<open>CreatureAI::UpdateVictim\<close>: the returned flag and the creature after it.\<close>

definition UpdateVictim :: "'u creature_env \<Rightarrow> 'u Creature \<Rightarrow> bool \<times> 'u Creature" where
  "UpdateVictim env me =
     (if \<not> IsEngaged me then (False, me)
      else if reactState me \<noteq> REACT_PASSIVE
      then
        (let me1 =
               (case SelectVictim env me of
                  Some victim \<Rightarrow>
                    (if \<not> IsFocusing env me \<and> Some victim \<noteq> GetVictim me
                     then AttackStart_effect env victim (do_call (AttackStart victim) me)
                     else me)
                | None \<Rightarrow> me)
         in (GetVictim me1 \<noteq> None, me1))
      else if \<not> IsInCombat me then (False, EnterEvadeMode me)
      else if GetVictim me \<noteq> None then (True, do_call AttackStop me)
      else (True, me))"

section \<open>CreatureAI: the guarded perception callback\<close>

text \<open>\<^verbatim>\<open>CreatureAI::MoveInLineOfSight\<close>, the body of the base class.\<close>

definition CreatureAI_MoveInLineOfSight :: "'u creature_env \<Rightarrow> 'u \<Rightarrow> 'u Creature \<Rightarrow> 'u Creature" where
  "CreatureAI_MoveInLineOfSight env who me =
     (if IsEngaged me then me
      else if reactState me = REACT_AGGRESSIVE \<and> CanStartAttack env me who False
      then do_call (EngageWithTarget who) me
      else me)"

text \<open>
  \<^verbatim>\<open>MoveInLineOfSight\<close> is virtual, and a script that overrides it can come back to
  \<^verbatim>\<open>MoveInLineOfSight_Safe\<close> of the same AI while it runs (the comment in the source:
  "MoveInLineOfSight can be called inside another MoveInLineOfSight"). The model takes the
  override as the list of what it does, given the unit seen and the creature at entry:
  \<open>Reenter w\<close> is a call back into \<^verbatim>\<open>MoveInLineOfSight_Safe(w)\<close>, \<open>Act f\<close> is
  anything else it does to the creature.
\<close>

datatype 'u los_cmd = Reenter 'u | Act "'u Creature \<Rightarrow> 'u Creature"

type_synonym 'u los_script = "'u \<Rightarrow> 'u Creature \<Rightarrow> 'u los_cmd list"

record 'u AI_los =
  me :: "'u Creature"
  m_MoveInLineOfSight_locked :: bool

text \<open>
  \<^verbatim>\<open>CreatureAI::MoveInLineOfSight_Safe\<close>, and the run of the virtual
  \<^verbatim>\<open>MoveInLineOfSight\<close> it calls.
\<close>

function MoveInLineOfSight_Safe :: "'u los_script \<Rightarrow> 'u \<Rightarrow> 'u AI_los \<Rightarrow> 'u AI_los"
  and MoveInLineOfSight :: "'u los_script \<Rightarrow> 'u los_cmd list \<Rightarrow> 'u AI_los \<Rightarrow> 'u AI_los"
where
  "MoveInLineOfSight_Safe script who ai =
     (if m_MoveInLineOfSight_locked ai = True then ai
      else (MoveInLineOfSight script (script who (me ai))
              (ai\<lparr>m_MoveInLineOfSight_locked := True\<rparr>))
             \<lparr>m_MoveInLineOfSight_locked := False\<rparr>)"
| "MoveInLineOfSight script [] ai = ai"
| "MoveInLineOfSight script (Reenter w # cmds) ai =
     MoveInLineOfSight script cmds (MoveInLineOfSight_Safe script w ai)"
| "MoveInLineOfSight script (Act f # cmds) ai =
     MoveInLineOfSight script cmds (ai\<lparr>me := f (me ai)\<rparr>)"
  by pat_completeness auto

text \<open>
  The constructor: \<^verbatim>\<open>m_MoveInLineOfSight_locked(false)\<close> in its initializer list.
\<close>

definition new_AI_los :: "'u Creature \<Rightarrow> 'u AI_los" where
  "new_AI_los creature = \<lparr>me = creature, m_MoveInLineOfSight_locked = False\<rparr>"

text \<open>The script of a creature that keeps the base class's \<^verbatim>\<open>MoveInLineOfSight\<close>.\<close>

definition base_script :: "'u creature_env \<Rightarrow> 'u los_script" where
  "base_script env who me0 = [Act (CreatureAI_MoveInLineOfSight env who)]"

text \<open>What a run of the callback does when every call back into the guard is left out.\<close>

fun acts_only :: "'u los_cmd list \<Rightarrow> 'u Creature \<Rightarrow> 'u Creature" where
  "acts_only [] c = c"
| "acts_only (Reenter w # cmds) c = acts_only cmds c"
| "acts_only (Act f # cmds) c = acts_only cmds (f c)"

section \<open>GameObject: loot state, go state and collision\<close>

datatype LootState = GO_NOT_READY | GO_READY | GO_ACTIVATED | GO_JUST_DEACTIVATED

text \<open>
  \<^verbatim>\<open>GOState\<close> and \<^verbatim>\<open>GameobjectTypes\<close> are declared outside this file. The model
  has the go states the file names, and the object types its \<^verbatim>\<open>Update\<close>,
  \<^verbatim>\<open>SetLootState\<close> and \<^verbatim>\<open>SetGoState\<close> tell apart; every other enumerator of
  \<^verbatim>\<open>GameobjectTypes\<close> is \<open>GAMEOBJECT_TYPE_other\<close> with its number.
\<close>

datatype GOState =
    GO_STATE_ACTIVE
  | GO_STATE_READY
  | GO_STATE_ACTIVE_ALTERNATIVE
  | GO_STATE_TRANSPORT_ACTIVE
  | GO_STATE_TRANSPORT_STOPPED nat

datatype GameobjectTypes =
    GAMEOBJECT_TYPE_DOOR
  | GAMEOBJECT_TYPE_BUTTON
  | GAMEOBJECT_TYPE_CHEST
  | GAMEOBJECT_TYPE_GENERIC
  | GAMEOBJECT_TYPE_TRAP
  | GAMEOBJECT_TYPE_GOOBER
  | GAMEOBJECT_TYPE_TRANSPORT
  | GAMEOBJECT_TYPE_MAP_OBJ_TRANSPORT
  | GAMEOBJECT_TYPE_FISHINGNODE
  | GAMEOBJECT_TYPE_FISHINGHOLE
  | GAMEOBJECT_TYPE_other nat

text \<open>
  The calls a game object makes on its AI, its map, the pool manager, its owner and its
  clients. Their bodies are outside this file: the model records each call, in order, in
  the field \<open>go_calls\<close>.
\<close>

datatype go_call =
    AI_OnLootStateChanged LootState "nat option"
  | AI_OnStateChanged GOState
  | AI_Reset
  | UpdateObjectVisibility
  | Map_SaveRespawnTimeDB nat int
  | Map_SaveRespawnTime nat nat bool
  | Map_AddToMap
  | PoolMgr_UpdatePool nat
  | AddObjectToRemoveList
  | DestroyForNearbyPlayers
  | SendGameObjectDespawn
  | SetFlags_of_override
  | RemoveFlag_GO_FLAG_IN_USE
  | m_SkillupList_clear
  | loot_clear
  | caster_RemoveGameObject
  | SendFishEscaped
  | linkedTrap_DespawnOrUnsummon
  | user_CastSpell nat nat
  | owner_RemoveGameObject

text \<open>
  The members of \<^verbatim>\<open>GameObject\<close> that the modelled code reads and writes.
  \<open>m_model\<close> is \<open>None\<close> for a null pointer, and else holds whether the collision of
  the model is enabled. \<open>m_goData\<close> is \<open>None\<close> for a null pointer, and else holds
  the field \<^verbatim>\<open>dbData\<close>. A guid is a number, \<open>0\<close> when empty. \<^verbatim>\<open>time_t\<close> is
  \<open>int\<close>. \<^verbatim>\<open>SetLootState\<close> calls \<^verbatim>\<open>AI()\<close> without a test, and the model too takes
  the AI as present.
\<close>

record GameObject =
  m_lootState :: LootState
  m_lootStateUnitGUID :: "nat option"
  GetGoState :: GOState
  m_prevGoState :: GOState
  GetGoType :: GameobjectTypes
  m_model :: "bool option"
  IsInWorld :: bool
  m_respawnTime :: int
  m_respawnDelayTime :: nat
  m_spawnedByDefault :: bool
  m_respawnCompatibilityMode :: bool
  m_spawnId :: nat
  m_goData :: "bool option"
  m_usetimes :: nat
  m_unique_users :: "nat list"
  m_cooldownTime :: nat
  m_spellId :: nat
  GetOwnerGUID :: nat
  FishingHole_MaxOpens :: nat
  go_calls :: "go_call list"

definition go_call :: "go_call \<Rightarrow> GameObject \<Rightarrow> GameObject" where
  "go_call c go = go\<lparr>go_calls := go_calls go @ [c]\<rparr>"

text \<open>\<^verbatim>\<open>GameObject::EnableCollision\<close>.\<close>

definition EnableCollision :: "bool \<Rightarrow> GameObject \<Rightarrow> GameObject" where
  "EnableCollision enable go =
     (case m_model go of None \<Rightarrow> go | Some c \<Rightarrow> go\<lparr>m_model := Some enable\<rparr>)"

text \<open>\<^verbatim>\<open>GameObject::IsTransport\<close> (the template is taken as present).\<close>

definition IsTransport :: "GameObject \<Rightarrow> bool" where
  "IsTransport go =
     (GetGoType go = GAMEOBJECT_TYPE_TRANSPORT \<or> GetGoType go = GAMEOBJECT_TYPE_MAP_OBJ_TRANSPORT)"

text \<open>\<^verbatim>\<open>GameObject::SetLootState\<close>; \<open>unit\<close> is the guid of the unit, \<open>None\<close> for null.\<close>

definition SetLootState :: "LootState \<Rightarrow> nat option \<Rightarrow> GameObject \<Rightarrow> GameObject" where
  "SetLootState state unit go =
     (let go1 = go\<lparr>m_lootState := state, m_lootStateUnitGUID := unit\<rparr>;
          go2 = go_call (AI_OnLootStateChanged state unit) go1
      in if GetGoType go2 = GAMEOBJECT_TYPE_DOOR then go2
         else if m_model go2 \<noteq> None
         then
           (let collision =
                  (if (GetGoState go2 \<noteq> GO_STATE_READY
                         \<and> (state = GO_ACTIVATED \<or> state = GO_JUST_DEACTIVATED))
                       \<or> state = GO_READY
                   then \<not> False else False)
            in EnableCollision collision go2)
         else go2)"

text \<open>\<^verbatim>\<open>GameObject::SetGoState\<close>.\<close>

definition SetGoState :: "GOState \<Rightarrow> GameObject \<Rightarrow> GameObject" where
  "SetGoState state go =
     (let go1 = go\<lparr>GetGoState := state\<rparr>;
          go2 = go_call (AI_OnStateChanged state) go1
      in if m_model go2 \<noteq> None \<and> \<not> IsTransport go2
         then
           (if \<not> IsInWorld go2 then go2
            else
              (let collision = (if state = GO_STATE_READY then \<not> False else False)
               in EnableCollision collision go2))
         else go2)"

text \<open>\<^verbatim>\<open>GameObject::ResetDoorOrButton\<close>.\<close>

definition ResetDoorOrButton :: "GameObject \<Rightarrow> GameObject" where
  "ResetDoorOrButton go =
     (if m_lootState go = GO_READY \<or> m_lootState go = GO_JUST_DEACTIVATED then go
      else
        (let go1 = go_call RemoveFlag_GO_FLAG_IN_USE go;
             go2 = SetGoState (m_prevGoState go1) go1;
             go3 = SetLootState GO_JUST_DEACTIVATED None go2
         in go3\<lparr>m_cooldownTime := 0\<rparr>))"

section \<open>GameObject: respawn\<close>

definition MINUTE :: int where
  "MINUTE = 60"

definition WEEK :: int where
  "WEEK = 604800"

text \<open>
  What one call of \<^verbatim>\<open>Update\<close> asks of code outside this file: the game time, the
  linked respawn time the map reports for this spawn and whether the linked respawn guid
  is the spawn's own, the random numbers drawn, whether the owner is a player, whether
  \<^verbatim>\<open>ObjectAccessor::GetUnit\<close> finds the owner, the pool the
  spawn is part of (\<open>0\<close> for none), whether a linked trap is found, the goober's spell,
  which players \<^verbatim>\<open>ObjectAccessor::GetPlayer\<close> finds, the override found by
  \<^verbatim>\<open>GetGameObjectOverride\<close> (\<open>None\<close> for null, else whether its flags have
  \<^verbatim>\<open>GO_FLAG_NODESPAWN\<close>), the template's \<^verbatim>\<open>IsDespawnAtAction\<close>, the animation
  progress, and the world's respawn configuration.
\<close>

record go_env =
  GetGameTime :: int
  GetLinkedRespawnTime :: int
  GetLinkedRespawnGuid_is_own :: bool
  urand_5_MINUTE :: int
  urand_restock :: nat
  owner_is_player :: bool
  owner_found :: bool
  IsPartOfAPool :: nat
  has_linkedTrap :: bool
  goober_spell :: nat
  GetPlayer :: "nat \<Rightarrow> bool"
  GetGameObjectOverride :: "bool option"
  IsDespawnAtAction :: bool
  GetGoAnimProgress :: nat
  CONFIG_RESPAWN_DYNAMICMODE :: nat
  ApplyDynamicModeRespawnScaling :: "nat \<Rightarrow> nat"
  CONFIG_SAVE_RESPAWN_TIME_IMMEDIATELY :: bool

text \<open>\<^verbatim>\<open>GameObject::SetRespawnTime\<close>.\<close>

definition SetRespawnTime :: "go_env \<Rightarrow> int \<Rightarrow> GameObject \<Rightarrow> GameObject" where
  "SetRespawnTime env respawn go =
     (let go1 = go\<lparr>m_respawnTime := (if respawn > 0 then GetGameTime env + respawn else 0),
                   m_respawnDelayTime := (if respawn > 0 then nat respawn else 0)\<rparr>
      in if respawn \<noteq> 0 \<and> \<not> m_spawnedByDefault go1
         then go_call UpdateObjectVisibility go1
         else go1)"

text \<open>
  \<^verbatim>\<open>GameObject::SaveRespawnTime(forceDelay, savetodb)\<close>; the defaults of the
  declaration are \<open>0\<close> and \<open>True\<close>.
\<close>

definition SaveRespawnTime :: "go_env \<Rightarrow> nat \<Rightarrow> bool \<Rightarrow> GameObject \<Rightarrow> GameObject" where
  "SaveRespawnTime env forceDelay savetodb go =
     (if m_goData go \<noteq> None \<and> (forceDelay \<noteq> 0 \<or> m_respawnTime go > GetGameTime env)
           \<and> m_spawnedByDefault go
      then
        (if m_respawnCompatibilityMode go
         then go_call (Map_SaveRespawnTimeDB (m_spawnId go) (m_respawnTime go)) go
         else
           (let thisRespawnTime =
                  nat ((if forceDelay \<noteq> 0 then GetGameTime env + int forceDelay
                        else m_respawnTime go) mod 2 ^ 32)
            in go_call (Map_SaveRespawnTime (m_spawnId go) thisRespawnTime
                          (if m_goData go = Some True then savetodb else False)) go))
      else go)"

text \<open>
  \<^verbatim>\<open>GameObject::RemoveFromOwner\<close>: an owner that is found is told to remove the
  object, which empties the owner guid (the source asserts it); for an owner that is not
  found the guid is emptied here.
\<close>

definition RemoveFromOwner :: "go_env \<Rightarrow> GameObject \<Rightarrow> GameObject" where
  "RemoveFromOwner env go =
     (if GetOwnerGUID go = 0 then go
      else if owner_found env
      then (go_call owner_RemoveGameObject go)\<lparr>GetOwnerGUID := 0\<rparr>
      else go\<lparr>GetOwnerGUID := 0\<rparr>)"

text \<open>\<^verbatim>\<open>GameObject::Delete\<close>.\<close>

definition Delete :: "go_env \<Rightarrow> GameObject \<Rightarrow> GameObject" where
  "Delete env go =
     (let go1 = (if has_linkedTrap env then go_call linkedTrap_DespawnOrUnsummon go else go);
          go2 = SetLootState GO_NOT_READY None go1;
          go3 = RemoveFromOwner env go2;
          go4 = go_call SendGameObjectDespawn go3;
          go5 = SetGoState GO_STATE_READY go4;
          go6 = (if GetGameObjectOverride env \<noteq> None then go_call SetFlags_of_override go5
                 else go5);
          poolid = (if m_spawnId go6 \<noteq> 0 then IsPartOfAPool env else 0)
      in if poolid \<noteq> 0 then go_call (PoolMgr_UpdatePool poolid) go6
         else go_call AddObjectToRemoveList go6)"

text \<open>
  How a case of the \<^verbatim>\<open>switch (m_lootState)\<close> of \<^verbatim>\<open>GameObject::Update\<close> ends:
  \<open>Return\<close> leaves \<^verbatim>\<open>Update\<close>, \<open>Continue\<close> goes on with the code after the part
  modelled.
\<close>

datatype flow = Return | Continue

text \<open>
  \<^verbatim>\<open>GameObject::Update\<close>, case \<^verbatim>\<open>GO_READY\<close>: the block
  \<^verbatim>\<open>if (m_respawnCompatibilityMode) { ... }\<close> that opens the case. On \<open>Continue\<close>
  the case goes on with the saving of the respawn time outside compatibility mode and
  with the activation checks of traps and charges.
\<close>

definition Update_GO_READY_compatibility :: "go_env \<Rightarrow> GameObject \<Rightarrow> GameObject \<times> flow" where
  "Update_GO_READY_compatibility env go =
     (if m_respawnCompatibilityMode go
      then
        (if m_respawnTime go > 0
         then
           (let now = GetGameTime env
            in if m_respawnTime go \<le> now
               then
                 (let linkedRespawntime = GetLinkedRespawnTime env
                  in if linkedRespawntime \<noteq> 0
                     then
                       (let go1 =
                              (if GetLinkedRespawnGuid_is_own env
                               then SetRespawnTime env WEEK go
                               else go\<lparr>m_respawnTime :=
                                        (if now > linkedRespawntime then now
                                         else linkedRespawntime) + urand_5_MINUTE env\<rparr>)
                        in (SaveRespawnTime env 0 True go1, Return))
                     else
                       (let go1 = (go_call m_SkillupList_clear (go\<lparr>m_respawnTime := 0\<rparr>))
                                    \<lparr>m_usetimes := 0\<rparr>
                        in if GetGoType go1 = GAMEOBJECT_TYPE_FISHINGNODE
                           then
                             (let go2 =
                                    (if owner_is_player env
                                     then go_call SendFishEscaped
                                            ((go_call caster_RemoveGameObject go1)
                                               \<lparr>GetOwnerGUID := 0\<rparr>)
                                     else go1)
                              in (go2\<lparr>m_lootState := GO_JUST_DEACTIVATED\<rparr>, Return))
                           else
                             (let go2 =
                                    (if GetGoType go1 = GAMEOBJECT_TYPE_DOOR
                                          \<or> GetGoType go1 = GAMEOBJECT_TYPE_BUTTON
                                     then (if GetGoState go1 \<noteq> GO_STATE_READY
                                           then ResetDoorOrButton go1 else go1)
                                     else if GetGoType go1 = GAMEOBJECT_TYPE_FISHINGHOLE
                                     then go1\<lparr>FishingHole_MaxOpens := urand_restock env\<rparr>
                                     else go1)
                              in if \<not> m_spawnedByDefault go2
                                 then (SetLootState GO_JUST_DEACTIVATED None go2, Return)
                                 else
                                   (let go3 = go_call AI_Reset go2;
                                        poolid = (if m_spawnId go3 \<noteq> 0
                                                  then IsPartOfAPool env else 0)
                                    in if poolid \<noteq> 0
                                       then (go_call (PoolMgr_UpdatePool poolid) go3, Continue)
                                       else (go_call Map_AddToMap go3, Continue)))))
               else (go, Continue))
         else (go, Continue))
      else (go, Continue))"

text \<open>
  \<^verbatim>\<open>GameObject::Update\<close>, case \<^verbatim>\<open>GO_JUST_DEACTIVATED\<close>: what the block
  \<^verbatim>\<open>if (GetGoType() == GAMEOBJECT_TYPE_GOOBER) { ... }\<close> does before its test of the
  override's flags.
\<close>

definition Update_GO_JUST_DEACTIVATED_goober :: "go_env \<Rightarrow> GameObject \<Rightarrow> GameObject" where
  "Update_GO_JUST_DEACTIVATED_goober env go =
     (let spellId = goober_spell env;
          go1 = (if spellId \<noteq> 0
                 then (foldl (\<lambda>acc u. go_call (user_CastSpell u spellId) acc) go
                         (filter (GetPlayer env) (m_unique_users go)))
                        \<lparr>m_unique_users := [], m_usetimes := 0\<rparr>
                 else go)
      in SetGoState GO_STATE_READY go1)"

text \<open>
  Case \<^verbatim>\<open>GO_JUST_DEACTIVATED\<close>: the body of
  \<^verbatim>\<open>if (GetSpellId() || !GetOwnerGUID().IsEmpty()) { ... return; }\<close>, for an object
  summoned by a spell or owned.
\<close>

definition Update_GO_JUST_DEACTIVATED_summoned :: "go_env \<Rightarrow> GameObject \<Rightarrow> GameObject" where
  "Update_GO_JUST_DEACTIVATED_summoned env go =
     (if m_respawnTime go > 0 \<and> GetGoType go = GAMEOBJECT_TYPE_CHEST
           \<and> \<not> IsDespawnAtAction env
      then SetLootState GO_READY None (go_call UpdateObjectVisibility go)
      else Delete env (SetRespawnTime env 0 go))"

text \<open>
  Case \<^verbatim>\<open>GO_JUST_DEACTIVATED\<close>: \<^verbatim>\<open>SetLootState(GO_NOT_READY)\<close> and the despawn
  sent to the clients ("burning flags in some battlegrounds").
\<close>

definition Update_GO_JUST_DEACTIVATED_despawn :: "go_env \<Rightarrow> GameObject \<Rightarrow> GameObject" where
  "Update_GO_JUST_DEACTIVATED_despawn env go =
     (let go1 = SetLootState GO_NOT_READY None go
      in if IsDespawnAtAction env \<or> GetGoAnimProgress env > 0
         then
           (let go2 = go_call SendGameObjectDespawn go1
            in if GetGameObjectOverride env \<noteq> None
               then go_call SetFlags_of_override go2 else go2)
         else go1)"

text \<open>
  Case \<^verbatim>\<open>GO_JUST_DEACTIVATED\<close>: from \<^verbatim>\<open>if (!m_respawnDelayTime) return;\<close> to the
  end of the case. On \<open>Continue\<close> (the \<^verbatim>\<open>break\<close> that ends the case) nothing is left
  to run in the \<^verbatim>\<open>switch\<close>.
\<close>

definition Update_GO_JUST_DEACTIVATED_respawn :: "go_env \<Rightarrow> GameObject \<Rightarrow> GameObject \<times> flow" where
  "Update_GO_JUST_DEACTIVATED_respawn env go =
     (if m_respawnDelayTime go = 0 then (go, Return)
      else if \<not> m_spawnedByDefault go
      then
        (let go1 = go\<lparr>m_respawnTime := 0\<rparr>
         in if m_spawnId go1 \<noteq> 0
            then (go_call DestroyForNearbyPlayers go1, Return)
            else (Delete env go1, Return))
      else
        (let respawnDelay =
               (if CONFIG_RESPAWN_DYNAMICMODE env \<noteq> 0
                then ApplyDynamicModeRespawnScaling env (m_respawnDelayTime go)
                else m_respawnDelayTime go);
             go1 = go\<lparr>m_respawnTime := GetGameTime env + int respawnDelay\<rparr>;
             go2 = (if CONFIG_SAVE_RESPAWN_TIME_IMMEDIATELY env
                    then SaveRespawnTime env 0 True go1 else go1)
         in if \<not> m_respawnCompatibilityMode go2
            then
              (let go3 = (if \<not> CONFIG_SAVE_RESPAWN_TIME_IMMEDIATELY env
                          then SaveRespawnTime env 0 False go2 else go2)
               in (go_call AddObjectToRemoveList go3, Return))
            else (go_call DestroyForNearbyPlayers go2, Continue)))"

text \<open>
  \<^verbatim>\<open>GameObject::Update\<close>, case \<^verbatim>\<open>GO_JUST_DEACTIVATED\<close>, whole: the linked trap,
  the goober block and its \<^verbatim>\<open>return\<close> on \<^verbatim>\<open>GO_FLAG_NODESPAWN\<close>,
  \<^verbatim>\<open>loot.clear()\<close>, then the summoned object or the respawn.
\<close>

definition Update_GO_JUST_DEACTIVATED :: "go_env \<Rightarrow> GameObject \<Rightarrow> GameObject \<times> flow" where
  "Update_GO_JUST_DEACTIVATED env go =
     (let go1 = (if has_linkedTrap env then go_call linkedTrap_DespawnOrUnsummon go else go);
          is_goober = (GetGoType go1 = GAMEOBJECT_TYPE_GOOBER);
          go2 = (if is_goober then Update_GO_JUST_DEACTIVATED_goober env go1 else go1)
      in if is_goober \<and> GetGameObjectOverride env = Some True then (go2, Return)
         else
           (let go3 = go_call loot_clear go2
            in if m_spellId go3 \<noteq> 0 \<or> GetOwnerGUID go3 \<noteq> 0
               then (Update_GO_JUST_DEACTIVATED_summoned env go3, Return)
               else Update_GO_JUST_DEACTIVATED_respawn env
                      (Update_GO_JUST_DEACTIVATED_despawn env go3)))"

text \<open>
  Vocabulary for the statements about respawn: the calls that schedule a respawn with
  the map, and the calls that take the object out of the map or hand it to its pool.
\<close>

fun schedules_respawn :: "go_call \<Rightarrow> bool" where
  "schedules_respawn (Map_SaveRespawnTimeDB spawnId t) = True"
| "schedules_respawn (Map_SaveRespawnTime spawnId t db) = True"
| "schedules_respawn c = False"

fun readds_to_map :: "go_call \<Rightarrow> bool" where
  "readds_to_map Map_AddToMap = True"
| "readds_to_map (PoolMgr_UpdatePool poolid) = True"
| "readds_to_map c = False"

fun leaves_map :: "go_call \<Rightarrow> bool" where
  "leaves_map AddObjectToRemoveList = True"
| "leaves_map (PoolMgr_UpdatePool poolid) = True"
| "leaves_map c = False"


section \<open>Sample inputs\<close>

text \<open>
  Concrete inputs on which the statements below are run. Positions are points of the
  integer grid, units are numbers. The three string ids of \<open>grid_env\<close> are sample
  values.
\<close>

definition grid_env :: "(int \<times> int) visualize_env" where
  "grid_env = \<lparr>LANG_CREATURE_MOVEMENT_NOT_BOUNDED = 1,
                LANG_CREATURE_NO_INTERIOR_POINT_FOUND = 2,
                LANG_CREATURE_MOVEMENT_MAYBE_UNBOUNDED = 3,
                stepPosition = (\<lambda>p c. (fst p + fst c, snd p + snd c))\<rparr>"

definition quadrant_ai :: "(int \<times> int) CreatureAI" where
  "quadrant_ai = \<lparr>me_GetPosition = (- 1, 4), me_GetHomePosition = (- 2, - 2),
                   boundary = Some [\<lambda>p. 0 \<le> fst p, \<lambda>p. 0 \<le> snd p], negateBoundary = False\<rparr>"

definition unbounded_ai :: "(int \<times> int) CreatureAI" where
  "unbounded_ai = \<lparr>me_GetPosition = (0, 0), me_GetHomePosition = (0, 0),
                    boundary = None, negateBoundary = True\<rparr>"

text \<open>A boundary that is set (\<^verbatim>\<open>SetBoundary\<close> with an empty vector) and negated.\<close>

definition empty_negated_ai :: "(int \<times> int) CreatureAI" where
  "empty_negated_ai = \<lparr>me_GetPosition = (1, 1), me_GetHomePosition = (2, 2),
                        boundary = Some [], negateBoundary = True\<rparr>"

definition evading_creature :: "nat Creature" where
  "evading_creature = \<lparr>IsAlive = True, IsInEvadeMode = True, IsEngaged = True,
                        IsInCombat = True, reactState = REACT_PASSIVE, GetVictim = Some 7,
                        GetVehicle = False, GetCharmerOrOwner = None, calls = []\<rparr>"

definition idle_env :: "nat creature_env" where
  "idle_env = \<lparr>SelectVictim = (\<lambda>c. None), IsFocusing = (\<lambda>c. False),
                CanStartAttack = (\<lambda>c who force. True),
                AttackStart_effect = (\<lambda>victim c. c\<lparr>GetVictim := Some victim\<rparr>)\<rparr>"

definition looping_script :: "nat los_script" where
  "looping_script who c = [Reenter who, Act (do_call (EngageWithTarget who)), Reenter 9]"

definition resting_ai :: "nat AI_los" where
  "resting_ai = \<lparr>me = evading_creature, m_MoveInLineOfSight_locked = False\<rparr>"

text \<open>A boundary that holds the one point \<open>(6, 6)\<close>, where the creature stands.\<close>

definition single_cell_ai :: "(int \<times> int) CreatureAI" where
  "single_cell_ai = \<lparr>me_GetPosition = (6, 6), me_GetHomePosition = (6, 6),
                      boundary = Some [\<lambda>p. p = (6, 6)], negateBoundary = False\<rparr>"

text \<open>
  A game object loaded from the database in compatibility mode, in loot state
  \<^verbatim>\<open>GO_READY\<close>, whose respawn time (100) is over at the game time of
  \<open>sample_go_env\<close> (200).
\<close>

definition sample_go :: GameObject where
  "sample_go = \<lparr>m_lootState = GO_READY, m_lootStateUnitGUID = None,
                 GetGoState = GO_STATE_ACTIVE, m_prevGoState = GO_STATE_ACTIVE,
                 GetGoType = GAMEOBJECT_TYPE_GENERIC, m_model = Some False, IsInWorld = True,
                 m_respawnTime = 100, m_respawnDelayTime = 60, m_spawnedByDefault = True,
                 m_respawnCompatibilityMode = True, m_spawnId = 5, m_goData = Some True,
                 m_usetimes = 0, m_unique_users = [], m_cooldownTime = 0, m_spellId = 0,
                 GetOwnerGUID = 0, FishingHole_MaxOpens = 0, go_calls = []\<rparr>"

definition sample_go_env :: go_env where
  "sample_go_env = \<lparr>GetGameTime = 200, GetLinkedRespawnTime = 0,
                     GetLinkedRespawnGuid_is_own = True, urand_5_MINUTE = 5, urand_restock = 1,
                     owner_is_player = False, owner_found = False, IsPartOfAPool = 0,
                     has_linkedTrap = False,
                     goober_spell = 0, GetPlayer = (\<lambda>guid. False), GetGameObjectOverride = None,
                     IsDespawnAtAction = False, GetGoAnimProgress = 0,
                     CONFIG_RESPAWN_DYNAMICMODE = 0, ApplyDynamicModeRespawnScaling = (\<lambda>d. d),
                     CONFIG_SAVE_RESPAWN_TIME_IMMEDIATELY = False\<rparr>"

section \<open>The flood fill terminates\<close>

lemma finite_box: "finite box"
  by (simp add: box_def)

lemma card_box: "card box = (2 * 750 + 1) ^ 2"
  by (simp add: box_def BOUNDARY_VISUALIZE_FAILSAFE_LIMIT_def power2_eq_square)

lemma visit_cases:
  "(alreadyChecked (fst (visit inb front (s, h) off)) = alreadyChecked s
      \<and> Q (fst (visit inb front (s, h) off)) = Q s)
   \<or> (\<exists>n. n \<in> box \<and> n \<notin> alreadyChecked s
        \<and> alreadyChecked (fst (visit inb front (s, h) off)) = insert n (alreadyChecked s)
        \<and> (Q (fst (visit inb front (s, h) off)) = Q s
             \<or> Q (fst (visit inb front (s, h) off)) = Q s @ [n]))"
proof -
  let ?n = "(fst front + fst off, snd front + snd off)"
  let ?out = "fst ?n > BOUNDARY_VISUALIZE_FAILSAFE_LIMIT
            \<or> fst ?n < - BOUNDARY_VISUALIZE_FAILSAFE_LIMIT
            \<or> snd ?n > BOUNDARY_VISUALIZE_FAILSAFE_LIMIT
            \<or> snd ?n < - BOUNDARY_VISUALIZE_FAILSAFE_LIMIT"
  show ?thesis
  proof (cases ?out)
    case True
    then show ?thesis by (simp add: visit_def Let_def)
  next
    case inside: False
    then have nbox: "?n \<in> box" by (auto simp: box_def)
    show ?thesis
    proof (cases "?n \<in> alreadyChecked s")
      case True
      with inside show ?thesis by (simp add: visit_def Let_def)
    next
      case False
      with inside nbox show ?thesis
        by (intro disjI2 exI [of _ ?n]) (simp add: visit_def Let_def)
    qed
  qed
qed

lemma visit_measure_pair:
  "fill_measure (fst (visit inb front (s, h) off)) \<le> fill_measure s"
proof -
  let ?s' = "fst (visit inb front (s, h) off)"
  from visit_cases [of inb front s h off]
  consider (same) "alreadyChecked ?s' = alreadyChecked s" "Q ?s' = Q s"
    | (new) n where "n \<in> box" "n \<notin> alreadyChecked s"
        "alreadyChecked ?s' = insert n (alreadyChecked s)"
        "Q ?s' = Q s \<or> Q ?s' = Q s @ [n]"
    by blast
  then show ?thesis
  proof cases
    case same
    then show ?thesis by (simp add: fill_measure_def)
  next
    case (new n)
    have "box - insert n (alreadyChecked s) = (box - alreadyChecked s) - {n}" by blast
    moreover have "n \<in> box - alreadyChecked s" using new by simp
    moreover have "finite (box - alreadyChecked s)" using finite_box by simp
    ultimately have "card (box - insert n (alreadyChecked s)) < card (box - alreadyChecked s)"
      by (metis card_Diff1_less)
    moreover have "length (Q ?s') \<le> length (Q s) + 1" using new(4) by auto
    ultimately show ?thesis using new(3) by (simp add: fill_measure_def)
  qed
qed

lemma visit_measure:
  "fill_measure (fst (visit inb front sh off)) \<le> fill_measure (fst sh)"
  using visit_measure_pair [of inb front "fst sh" "snd sh" off] by simp

lemma visit_Q_nonempty:
  "Q (fst sh) \<noteq> [] \<Longrightarrow> Q (fst (visit inb front sh off)) \<noteq> []"
  by (auto simp: visit_def Let_def)

lemma foldl_visit_measure:
  "fill_measure (fst (foldl (visit inb front) sh offs)) \<le> fill_measure (fst sh)"
proof (induction offs arbitrary: sh)
  case Nil
  show ?case by simp
next
  case (Cons off offs)
  have "fill_measure (fst (foldl (visit inb front) (visit inb front sh off) offs))
          \<le> fill_measure (fst (visit inb front sh off))"
    by (rule Cons.IH)
  also have "\<dots> \<le> fill_measure (fst sh)" by (rule visit_measure)
  finally show ?case by simp
qed

lemma foldl_visit_Q_nonempty:
  "Q (fst sh) \<noteq> [] \<Longrightarrow> Q (fst (foldl (visit inb front) sh offs)) \<noteq> []"
  by (induction offs arbitrary: sh) (simp_all add: visit_Q_nonempty)

lemma expand_measure:
  assumes "Q s \<noteq> []"
  shows "fill_measure (expand inb fill duration front s) < fill_measure s"
proof -
  let ?sh = "foldl (visit inb front) (s, False) offsets"
  have m: "fill_measure (fst ?sh) \<le> fill_measure s"
    using foldl_visit_measure [of inb front "(s, False)" offsets] by simp
  have ne: "Q (fst ?sh) \<noteq> []"
    using foldl_visit_Q_nonempty [of "(s, False)" inb front offsets] assms by simp
  have "length (tl (Q (fst ?sh))) = length (Q (fst ?sh)) - 1" by simp
  then have "fill_measure (expand inb fill duration front s) = fill_measure (fst ?sh) - 1"
    using ne by (cases "Q (fst ?sh)") (simp_all add: expand_def Let_def fill_measure_def)
  moreover have "0 < fill_measure (fst ?sh)" using ne by (simp add: fill_measure_def)
  ultimately show ?thesis using m by simp
qed

termination flood
  by (relation "measure (\<lambda>(inb, fill, duration, s). fill_measure s)")
     (simp_all add: expand_measure)

termination expanded
  by (relation "measure (\<lambda>(inb, fill, duration, s). fill_measure s)")
     (simp_all add: expand_measure)

declare flood.simps [simp del] expanded.simps [simp del]

lemma Safe_locked_dom:
  "MoveInLineOfSight_Safe_MoveInLineOfSight_dom (Inl (script, w, ai)) \<Longrightarrow>
   m_MoveInLineOfSight_locked (MoveInLineOfSight_Safe script w ai) = m_MoveInLineOfSight_locked ai"
  by (simp add: MoveInLineOfSight_Safe.psimps)

termination MoveInLineOfSight_Safe
  by (relation "measures
       [\<lambda>x. case x of
            Inl (script, w, ai) \<Rightarrow> (if m_MoveInLineOfSight_locked ai then 0 else 1)
          | Inr (script, cmds, ai) \<Rightarrow> (if m_MoveInLineOfSight_locked ai then 0 else 1),
        \<lambda>x. case x of
            Inl (script, w, ai) \<Rightarrow> 0
          | Inr (script, cmds, ai) \<Rightarrow> Suc (length cmds)]")
     (simp_all add: Safe_locked_dom)

section \<open>Boundary containment and the choice of the start position\<close>

lemma IsInBounds_all: "IsInBounds b pos = (\<forall>areaBoundary \<in> set b. areaBoundary pos)"
  by (induction b) auto

text \<open>
  Claim C7. With a boundary set, \<^const>\<open>IsInBoundary\<close> is the conjunction of all the
  area boundaries at the position (the position of \<^verbatim>\<open>me\<close> for a null argument),
  unequal to, that is exclusive-or'd with, the negate flag. With no boundary set (a null
  \<^verbatim>\<open>_boundary\<close>) it is true at every position whatever the negate flag is, and
  \<^verbatim>\<open>VisualizeBoundary\<close>, called by a unit, returns
  \<^verbatim>\<open>LANG_CREATURE_MOVEMENT_NOT_BOUNDED\<close> and summons nothing.
\<close>

theorem C7_contains:
  "(boundary ai = Some b \<longrightarrow>
      IsInBoundary ai who =
        ((\<forall>areaBoundary \<in> set b.
            areaBoundary (case who of None \<Rightarrow> me_GetPosition ai | Some p \<Rightarrow> p))
         \<noteq> negateBoundary ai))
   \<and> (boundary ai = None \<longrightarrow>
        IsInBoundary ai who
        \<and> VisualizeBoundary env ai duration (Some owner_GetPosition) fill
            = (LANG_CREATURE_MOVEMENT_NOT_BOUNDED env, []))"
  by (simp add: IsInBoundary_def IsInBounds_all VisualizeBoundary_def)

theorem C7_contains_witness:
  "IsInBoundary quadrant_ai (Some (2, 3))
   \<and> \<not> IsInBoundary quadrant_ai (Some (2, - 3))
   \<and> \<not> IsInBoundary quadrant_ai None
   \<and> IsInBoundary unbounded_ai (Some (2, - 3))
   \<and> VisualizeBoundary grid_env unbounded_ai 5 (Some (9, 9)) False = (1, [])"
  using C7_contains [of quadrant_ai "[\<lambda>p. 0 \<le> fst p, \<lambda>p. 0 \<le> snd p]" "Some (2, 3)"]
    C7_contains [of quadrant_ai "[\<lambda>p. 0 \<le> fst p, \<lambda>p. 0 \<le> snd p]" "Some (2, - 3)"]
    C7_contains [of quadrant_ai "[\<lambda>p. 0 \<le> fst p, \<lambda>p. 0 \<le> snd p]" None]
    C7_contains [of unbounded_ai _ "Some (2, - 3)" grid_env 5 "(9, 9)" False]
  by (simp add: quadrant_ai_def unbounded_ai_def grid_env_def)

text \<open>
  Claim C6, as the code has it. The start position is the first of the position of the
  unit that asked, the position of \<^verbatim>\<open>me\<close> and the home position of \<^verbatim>\<open>me\<close>
  that is in the boundary. Called by a unit with a boundary that is set and not empty,
  \<^verbatim>\<open>VisualizeBoundary\<close> returns \<^verbatim>\<open>LANG_CREATURE_NO_INTERIOR_POINT_FOUND\<close>
  and summons nothing when none of the three is in the boundary; otherwise it fills from
  the position chosen, and every marker is placed from it. With a boundary that is set but
  empty, the test \<^verbatim>\<open>_boundary->empty()\<close> comes first: the result is
  \<^verbatim>\<open>LANG_CREATURE_MOVEMENT_NOT_BOUNDED\<close> and no start position is looked for,
  whether or not a position is in the boundary.
\<close>

theorem C6_seed:
  "startPosition ai owner_GetPosition =
     List.find (\<lambda>p. IsInBoundary ai (Some p))
       [owner_GetPosition, me_GetPosition ai, me_GetHomePosition ai]
   \<and> (boundary ai = Some b \<and> b \<noteq> [] \<longrightarrow>
        (case startPosition ai owner_GetPosition of
           None \<Rightarrow>
             VisualizeBoundary env ai duration (Some owner_GetPosition) fill
               = (LANG_CREATURE_NO_INTERIOR_POINT_FOUND env, [])
         | Some start \<Rightarrow>
             VisualizeBoundary env ai duration (Some owner_GetPosition) fill
               = (let r = flood (cell_in_boundary env ai start) fill duration fill_init
                  in (if boundsWarning r then LANG_CREATURE_MOVEMENT_MAYBE_UNBOUNDED env else 0,
                      map (Pair start) (markers r)))))
   \<and> (boundary ai = Some [] \<longrightarrow>
        VisualizeBoundary env ai duration (Some owner_GetPosition) fill
          = (LANG_CREATURE_MOVEMENT_NOT_BOUNDED env, []))"
  by (simp add: startPosition_def VisualizeBoundary_def split: option.splits)

theorem C6_seed_witness:
  "startPosition quadrant_ai (- 5, 0) = None
   \<and> VisualizeBoundary grid_env quadrant_ai 5 (Some (- 5, 0)) True = (2, [])
   \<and> startPosition (quadrant_ai\<lparr>me_GetHomePosition := (6, 6)\<rparr>) (- 5, 0) = Some (6, 6)
   \<and> startPosition (quadrant_ai\<lparr>me_GetHomePosition := (6, 6)\<rparr>) (5, 0) = Some (5, 0)"
proof -
  have b: "boundary quadrant_ai = Some [\<lambda>p. 0 \<le> fst p, \<lambda>p. 0 \<le> snd p]
           \<and> [\<lambda>p::int \<times> int. 0 \<le> fst p, \<lambda>p. 0 \<le> snd p] \<noteq> []"
    by (simp add: quadrant_ai_def)
  have none: "startPosition quadrant_ai (- 5, 0) = None"
    using C6_seed [of quadrant_ai "(- 5, 0)"]
    by (simp add: quadrant_ai_def IsInBoundary_def)
  have "VisualizeBoundary grid_env quadrant_ai 5 (Some (- 5, 0)) True
          = (LANG_CREATURE_NO_INTERIOR_POINT_FOUND grid_env, [])"
    using C6_seed [of quadrant_ai "(- 5, 0)" "[\<lambda>p. 0 \<le> fst p, \<lambda>p. 0 \<le> snd p]" grid_env 5 True]
      b none by simp
  moreover have "startPosition (quadrant_ai\<lparr>me_GetHomePosition := (6, 6)\<rparr>) (- 5, 0) = Some (6, 6)"
    using C6_seed [of "quadrant_ai\<lparr>me_GetHomePosition := (6, 6)\<rparr>" "(- 5, 0)"]
    by (simp add: quadrant_ai_def IsInBoundary_def)
  moreover have "startPosition (quadrant_ai\<lparr>me_GetHomePosition := (6, 6)\<rparr>) (5, 0) = Some (5, 0)"
    using C6_seed [of "quadrant_ai\<lparr>me_GetHomePosition := (6, 6)\<rparr>" "(5, 0)"]
    by (simp add: quadrant_ai_def IsInBoundary_def)
  ultimately show ?thesis using none by (simp add: grid_env_def)
qed

text \<open>
  The claim as it was stated, for every boundary, fails on a boundary that is set, empty
  and negated: no position is in it, so none of the three positions is, yet the result is
  \<^verbatim>\<open>LANG_CREATURE_MOVEMENT_NOT_BOUNDED\<close> and not
  \<^verbatim>\<open>LANG_CREATURE_NO_INTERIOR_POINT_FOUND\<close>.
\<close>

theorem C6_empty_negated_counterexample:
  "\<not> IsInBoundary empty_negated_ai (Some (3, 3))
   \<and> \<not> IsInBoundary empty_negated_ai (Some (me_GetPosition empty_negated_ai))
   \<and> \<not> IsInBoundary empty_negated_ai (Some (me_GetHomePosition empty_negated_ai))
   \<and> startPosition empty_negated_ai (3, 3) = None
   \<and> VisualizeBoundary grid_env empty_negated_ai 5 (Some (3, 3)) True
       = (LANG_CREATURE_MOVEMENT_NOT_BOUNDED grid_env, [])
   \<and> LANG_CREATURE_MOVEMENT_NOT_BOUNDED grid_env
       \<noteq> LANG_CREATURE_NO_INTERIOR_POINT_FOUND grid_env"
  by (simp add: empty_negated_ai_def grid_env_def IsInBoundary_def startPosition_def
      VisualizeBoundary_def)

text \<open>
  Claim C10. Called with a null unit, \<^verbatim>\<open>VisualizeBoundary\<close> returns \<open>-1\<close> and
  summons nothing, whatever the boundary is. The string ids of \<^verbatim>\<open>Language.h\<close> are
  not negative, so \<open>-1\<close> is none of success (\<open>0\<close>) and the three
  \<^verbatim>\<open>LANG_CREATURE_...\<close> results.
\<close>

theorem C10_null_owner:
  "VisualizeBoundary env ai duration None fill = (- 1, [])
   \<and> (0 \<le> LANG_CREATURE_MOVEMENT_NOT_BOUNDED env
        \<and> 0 \<le> LANG_CREATURE_NO_INTERIOR_POINT_FOUND env
        \<and> 0 \<le> LANG_CREATURE_MOVEMENT_MAYBE_UNBOUNDED env
      \<longrightarrow> fst (VisualizeBoundary env ai duration None fill)
            \<notin> {0, LANG_CREATURE_MOVEMENT_MAYBE_UNBOUNDED env,
                LANG_CREATURE_MOVEMENT_NOT_BOUNDED env,
                LANG_CREATURE_NO_INTERIOR_POINT_FOUND env})"
  by (auto simp: VisualizeBoundary_def)

theorem C10_null_owner_witness:
  "VisualizeBoundary grid_env quadrant_ai 5 None True = (- 1, [])
   \<and> fst (VisualizeBoundary grid_env quadrant_ai 5 None True) \<notin> {0, 3, 1, 2}"
  using C10_null_owner [of grid_env quadrant_ai 5 True]
  by (simp add: grid_env_def)

section \<open>Evade mode and victim selection\<close>

text \<open>
  Claim C1, as the code has it. On a creature that is alive and already in evade mode,
  \<^verbatim>\<open>EnterEvadeMode\<close> is not without effect: \<^verbatim>\<open>_EnterEvadeMode\<close> tests
  \<^verbatim>\<open>IsInEvadeMode()\<close> only after its clean-up ("sometimes bosses stuck in combat?"),
  so the auras are removed, the threat is cleared, combat is stopped, the loot recipient is
  cleared and the damage bookkeeping is reset once more. What the second call leaves out
  is the rest: no movement command, no \<^verbatim>\<open>AddUnitState\<close>, no \<^verbatim>\<open>Reset()\<close>.
\<close>

theorem C1_evading_again:
  "IsAlive c \<Longrightarrow> IsInEvadeMode c \<Longrightarrow>
   EnterEvadeMode c =
     c\<lparr>calls := calls c @ [RemoveAurasOnEvade, ClearAllThreat, CombatStop True,
                            SetLootRecipient None, ResetPlayerDamageReq, SetLastDamagedTime 0,
                            SetCannotReachTarget False, DoNotReacquireTarget]\<rparr>"
  by (simp add: EnterEvadeMode_def underscore_EnterEvadeMode_def do_call_def Let_def)

theorem C1_evading_again_witness:
  "IsAlive evading_creature \<and> IsInEvadeMode evading_creature
   \<and> calls (EnterEvadeMode evading_creature)
       = [RemoveAurasOnEvade, ClearAllThreat, CombatStop True, SetLootRecipient None,
          ResetPlayerDamageReq, SetLastDamagedTime 0, SetCannotReachTarget False,
          DoNotReacquireTarget]"
  using C1_evading_again [of evading_creature]
  by (simp add: evading_creature_def)

text \<open>
  The claim as it was stated, that the second call does nothing, fails on a creature that
  is alive and in evade mode: the call clears the threat, stops combat and clears the loot
  recipient again.
\<close>

theorem C1_noop_counterexample:
  "IsAlive evading_creature \<and> IsInEvadeMode evading_creature
   \<and> EnterEvadeMode evading_creature \<noteq> evading_creature
   \<and> ClearAllThreat \<in> set (calls (EnterEvadeMode evading_creature))
   \<and> CombatStop True \<in> set (calls (EnterEvadeMode evading_creature))
   \<and> SetLootRecipient None \<in> set (calls (EnterEvadeMode evading_creature))"
  by (simp add: evading_creature_def EnterEvadeMode_def underscore_EnterEvadeMode_def
      do_call_def Let_def)

text \<open>
  Claim C9. On an engaged creature whose react state is passive, that is in combat and has
  a victim, \<^verbatim>\<open>UpdateVictim\<close> calls \<^verbatim>\<open>AttackStop()\<close> and nothing else, and returns
  true: evade mode is not entered, and the creature is in combat as before.
\<close>

theorem C9_passive_in_combat:
  "IsEngaged c \<Longrightarrow> reactState c = REACT_PASSIVE \<Longrightarrow> IsInCombat c \<Longrightarrow> GetVictim c = Some v \<Longrightarrow>
   UpdateVictim env c = (True, c\<lparr>calls := calls c @ [AttackStop]\<rparr>)"
  by (simp add: UpdateVictim_def do_call_def)

theorem C9_passive_in_combat_witness:
  "IsEngaged evading_creature \<and> reactState evading_creature = REACT_PASSIVE
   \<and> IsInCombat evading_creature \<and> GetVictim evading_creature = Some 7
   \<and> UpdateVictim idle_env evading_creature
       = (True, evading_creature\<lparr>calls := [AttackStop]\<rparr>)"
  using C9_passive_in_combat [of evading_creature 7 idle_env]
  by (simp add: evading_creature_def)

section \<open>The guarded perception callback\<close>

lemma MoveInLineOfSight_locked:
  "m_MoveInLineOfSight_locked ai \<Longrightarrow>
   MoveInLineOfSight script cmds ai = ai\<lparr>me := acts_only cmds (me ai)\<rparr>"
proof (induction cmds arbitrary: ai)
  case Nil
  then show ?case by simp
next
  case (Cons cmd cmds)
  then show ?case by (cases cmd) simp_all
qed

lemma MoveInLineOfSight_Safe_flag:
  "m_MoveInLineOfSight_locked (MoveInLineOfSight_Safe script who ai)
     = m_MoveInLineOfSight_locked ai"
  by simp

lemma MoveInLineOfSight_Safe_calls_flag:
  "m_MoveInLineOfSight_locked (foldl (\<lambda>a w. MoveInLineOfSight_Safe script w a) ai whos)
     = m_MoveInLineOfSight_locked ai"
proof (induction whos arbitrary: ai)
  case Nil
  show ?case by simp
next
  case (Cons w whos)
  have "m_MoveInLineOfSight_locked
          (foldl (\<lambda>a w. MoveInLineOfSight_Safe script w a) (MoveInLineOfSight_Safe script w ai) whos)
        = m_MoveInLineOfSight_locked (MoveInLineOfSight_Safe script w ai)"
    by (rule Cons.IH)
  then show ?case by (simp only: foldl_Cons MoveInLineOfSight_Safe_flag)
qed

text \<open>
  Claim C8. A call of \<^verbatim>\<open>MoveInLineOfSight_Safe\<close> while the flag is set, that is while
  a callback of the same AI runs, returns at once and changes nothing. A call while the
  flag is clear runs the callback once, and its result is that of the callback with every
  call back into the guard left out: those are dropped, neither queued nor run. Either way
  the flag is after the call what it was before it. The constructor clears it, so after
  any sequence of calls on a new AI, when no callback runs, it is clear.
\<close>

theorem C8_guard:
  "(m_MoveInLineOfSight_locked ai \<longrightarrow> MoveInLineOfSight_Safe script who ai = ai)
   \<and> (\<not> m_MoveInLineOfSight_locked ai \<longrightarrow>
        MoveInLineOfSight_Safe script who ai
          = ai\<lparr>me := acts_only (script who (me ai)) (me ai)\<rparr>)
   \<and> m_MoveInLineOfSight_locked (MoveInLineOfSight_Safe script who ai)
       = m_MoveInLineOfSight_locked ai
   \<and> \<not> m_MoveInLineOfSight_locked
         (foldl (\<lambda>a w. MoveInLineOfSight_Safe script w a) (new_AI_los creature) whos)"
proof -
  have nested: "m_MoveInLineOfSight_locked ai \<longrightarrow> MoveInLineOfSight_Safe script who ai = ai"
    by simp
  have once: "\<not> m_MoveInLineOfSight_locked ai \<longrightarrow>
        MoveInLineOfSight_Safe script who ai
          = ai\<lparr>me := acts_only (script who (me ai)) (me ai)\<rparr>"
    by (simp add: MoveInLineOfSight_locked)
  have "\<not> m_MoveInLineOfSight_locked (new_AI_los creature)"
    by (simp add: new_AI_los_def)
  then have rest: "\<not> m_MoveInLineOfSight_locked
         (foldl (\<lambda>a w. MoveInLineOfSight_Safe script w a) (new_AI_los creature) whos)"
    by (simp only: MoveInLineOfSight_Safe_calls_flag not_False_eq_True)
  show ?thesis
    using nested once MoveInLineOfSight_Safe_flag [of script who ai] rest by blast
qed

theorem C8_guard_witness:
  "MoveInLineOfSight_Safe looping_script 4 (resting_ai\<lparr>m_MoveInLineOfSight_locked := True\<rparr>)
     = resting_ai\<lparr>m_MoveInLineOfSight_locked := True\<rparr>
   \<and> MoveInLineOfSight_Safe looping_script 4 resting_ai
       = resting_ai\<lparr>me := evading_creature\<lparr>calls := [EngageWithTarget 4]\<rparr>\<rparr>
   \<and> \<not> m_MoveInLineOfSight_locked (MoveInLineOfSight_Safe looping_script 4 resting_ai)
   \<and> \<not> m_MoveInLineOfSight_locked
         (foldl (\<lambda>a w. MoveInLineOfSight_Safe looping_script w a)
            (new_AI_los evading_creature) [4, 9])"
  using C8_guard [of "resting_ai\<lparr>m_MoveInLineOfSight_locked := True\<rparr>" looping_script 4
        evading_creature "[4, 9]"]
    C8_guard [of resting_ai looping_script 4 evading_creature "[4, 9]"]
  by (simp add: resting_ai_def looping_script_def evading_creature_def do_call_def)


section \<open>Loot state, go state and collision\<close>

text \<open>
  Claim C5, as the code has it. \<^verbatim>\<open>SetLootState\<close> never changes the collision of a
  door: it returns before the collision code ("only set collision for doors on
  SetGoState"). A button is not exempt: for every type but the door, buttons included, an
  object with a model gets its collision from the new loot state and the go state it has.
  \<^verbatim>\<open>SetGoState\<close> sets the collision of an object that has a model, is no transport
  and is in the world to "enabled exactly when the new go state is
  \<^verbatim>\<open>GO_STATE_READY\<close>", and leaves the collision of any other object as it is.
\<close>

theorem C5_collision:
  "(GetGoType go = GAMEOBJECT_TYPE_DOOR \<longrightarrow>
      m_model (SetLootState state unit go) = m_model go)
   \<and> (GetGoType go \<noteq> GAMEOBJECT_TYPE_DOOR \<and> m_model go \<noteq> None \<longrightarrow>
        m_model (SetLootState state unit go)
          = Some ((GetGoState go \<noteq> GO_STATE_READY
                     \<and> (state = GO_ACTIVATED \<or> state = GO_JUST_DEACTIVATED))
                  \<or> state = GO_READY))
   \<and> (m_model go \<noteq> None \<and> \<not> IsTransport go \<and> IsInWorld go \<longrightarrow>
        m_model (SetGoState gs go) = Some (gs = GO_STATE_READY))
   \<and> (m_model go = None \<or> IsTransport go \<or> \<not> IsInWorld go \<longrightarrow>
        m_model (SetGoState gs go) = m_model go)"
  by (auto simp: SetLootState_def SetGoState_def EnableCollision_def go_call_def IsTransport_def
      Let_def split: option.splits)

theorem C5_collision_witness:
  "m_model (SetLootState GO_ACTIVATED None (sample_go\<lparr>GetGoType := GAMEOBJECT_TYPE_DOOR\<rparr>))
     = Some False
   \<and> m_model (SetLootState GO_ACTIVATED None sample_go) = Some True
   \<and> m_model (SetGoState GO_STATE_READY (sample_go\<lparr>GetGoType := GAMEOBJECT_TYPE_DOOR\<rparr>))
       = Some True
   \<and> m_model (SetGoState GO_STATE_READY (sample_go\<lparr>IsInWorld := False\<rparr>)) = Some False"
  using C5_collision [of "sample_go\<lparr>GetGoType := GAMEOBJECT_TYPE_DOOR\<rparr>" GO_ACTIVATED None
      GO_STATE_READY]
    C5_collision [of sample_go GO_ACTIVATED None GO_STATE_READY]
    C5_collision [of "sample_go\<lparr>IsInWorld := False\<rparr>" GO_ACTIVATED None GO_STATE_READY]
  by (simp add: sample_go_def IsTransport_def)

text \<open>
  The claim as it was stated fails on a button: a button with a model whose collision is
  disabled has it enabled by \<^verbatim>\<open>SetLootState(GO_READY)\<close>.
\<close>

theorem C5_button_counterexample:
  "GetGoType (sample_go\<lparr>GetGoType := GAMEOBJECT_TYPE_BUTTON\<rparr>) = GAMEOBJECT_TYPE_BUTTON
   \<and> m_model (sample_go\<lparr>GetGoType := GAMEOBJECT_TYPE_BUTTON\<rparr>) = Some False
   \<and> m_model (SetLootState GO_READY None (sample_go\<lparr>GetGoType := GAMEOBJECT_TYPE_BUTTON\<rparr>))
       = Some True"
  by (simp add: sample_go_def SetLootState_def EnableCollision_def go_call_def Let_def)

section \<open>Respawn of a self-linked spawn\<close>

text \<open>
  Claim C3, as the code has it. Take an object in compatibility mode with a respawn time
  set, whose linked respawn guid is its own, at a call of \<^verbatim>\<open>Update\<close> at which the
  map reports a linked respawn time that is not zero (the guard "Can't respawn, the master
  is dead", inside which alone the self link is looked at). Whatever the game time is:
  before the respawn time nothing happens; at or after it the case returns with the
  respawn time set to one week after the game time, so in the future, with the loot state
  and the compatibility mode as they were, and with no call that adds the object to the
  map or updates its pool. The state after the call meets the same conditions again, so
  the same holds at every later expiry.
\<close>

theorem C3_self_linked:
  assumes "m_respawnCompatibilityMode go" and "0 < m_respawnTime go"
    and "GetLinkedRespawnTime env \<noteq> 0" and "GetLinkedRespawnGuid_is_own env"
  shows "(let r = Update_GO_READY_compatibility env go; go' = fst r
          in if m_respawnTime go \<le> GetGameTime env
             then snd r = Return
                  \<and> m_respawnTime go' = GetGameTime env + WEEK
                  \<and> m_respawnDelayTime go' = nat WEEK
                  \<and> GetGameTime env < m_respawnTime go'
                  \<and> 0 < m_respawnTime go'
                  \<and> m_respawnCompatibilityMode go'
                  \<and> m_lootState go' = m_lootState go
                  \<and> take (length (go_calls go)) (go_calls go') = go_calls go
                  \<and> \<not> list_ex readds_to_map (drop (length (go_calls go)) (go_calls go'))
             else r = (go, Continue))"
  using assms
  by (simp add: Update_GO_READY_compatibility_def SetRespawnTime_def SaveRespawnTime_def
      go_call_def WEEK_def Let_def)

theorem C3_self_linked_witness:
  "(let e = sample_go_env\<lparr>GetLinkedRespawnTime := 100\<rparr>;
        r = Update_GO_READY_compatibility e sample_go
    in m_respawnCompatibilityMode sample_go \<and> 0 < m_respawnTime sample_go
       \<and> GetLinkedRespawnTime e \<noteq> 0 \<and> GetLinkedRespawnGuid_is_own e
       \<and> m_respawnTime sample_go \<le> GetGameTime e
       \<and> snd r = Return \<and> m_respawnTime (fst r) = 605000
       \<and> go_calls (fst r) = [Map_SaveRespawnTimeDB 5 605000])"
  using C3_self_linked [of sample_go "sample_go_env\<lparr>GetLinkedRespawnTime := 100\<rparr>"]
  by (auto simp: sample_go_def sample_go_env_def Update_GO_READY_compatibility_def
      SetRespawnTime_def SaveRespawnTime_def go_call_def WEEK_def Let_def)

text \<open>
  The claim as it was stated, for every self-linked spawn, fails when the map reports no
  linked respawn time (zero): the self link is then never looked at, and the object is
  added to the map again.
\<close>

theorem C3_no_master_time_counterexample:
  "m_respawnCompatibilityMode sample_go \<and> m_lootState sample_go = GO_READY
   \<and> 0 < m_respawnTime sample_go \<and> m_respawnTime sample_go \<le> GetGameTime sample_go_env
   \<and> GetLinkedRespawnGuid_is_own sample_go_env
   \<and> snd (Update_GO_READY_compatibility sample_go_env sample_go) = Continue
   \<and> m_respawnTime (fst (Update_GO_READY_compatibility sample_go_env sample_go)) = 0
   \<and> go_calls (fst (Update_GO_READY_compatibility sample_go_env sample_go))
       = [m_SkillupList_clear, AI_Reset, Map_AddToMap]"
  by (simp add: sample_go_def sample_go_env_def Update_GO_READY_compatibility_def
      go_call_def Let_def)

section \<open>An object that is not spawned by default\<close>

text \<open>
  What the setters and the blocks of case \<^verbatim>\<open>GO_JUST_DEACTIVATED\<close> do to the fields
  that decide the respawn, and which calls they add.
\<close>

lemma SetLootState_frame:
  "m_lootState (SetLootState st u g) = st"
  "go_calls (SetLootState st u g) = go_calls g @ [AI_OnLootStateChanged st u]"
  "m_respawnTime (SetLootState st u g) = m_respawnTime g"
  "m_respawnDelayTime (SetLootState st u g) = m_respawnDelayTime g"
  "m_spawnedByDefault (SetLootState st u g) = m_spawnedByDefault g"
  "m_respawnCompatibilityMode (SetLootState st u g) = m_respawnCompatibilityMode g"
  "m_spawnId (SetLootState st u g) = m_spawnId g"
  "m_spellId (SetLootState st u g) = m_spellId g"
  "GetOwnerGUID (SetLootState st u g) = GetOwnerGUID g"
  "GetGoType (SetLootState st u g) = GetGoType g"
  by (simp_all add: SetLootState_def EnableCollision_def go_call_def Let_def split: option.splits)

lemma SetGoState_frame:
  "m_lootState (SetGoState st g) = m_lootState g"
  "go_calls (SetGoState st g) = go_calls g @ [AI_OnStateChanged st]"
  "m_respawnTime (SetGoState st g) = m_respawnTime g"
  "m_respawnDelayTime (SetGoState st g) = m_respawnDelayTime g"
  "m_spawnedByDefault (SetGoState st g) = m_spawnedByDefault g"
  "m_respawnCompatibilityMode (SetGoState st g) = m_respawnCompatibilityMode g"
  "m_spawnId (SetGoState st g) = m_spawnId g"
  "m_spellId (SetGoState st g) = m_spellId g"
  "GetOwnerGUID (SetGoState st g) = GetOwnerGUID g"
  "GetGoType (SetGoState st g) = GetGoType g"
  by (simp_all add: SetGoState_def EnableCollision_def go_call_def Let_def split: option.splits)

lemma foldl_go_call:
  "foldl (\<lambda>acc u. go_call (f u) acc) g us = g\<lparr>go_calls := go_calls g @ map f us\<rparr>"
  by (induction us arbitrary: g) (simp_all add: go_call_def)

lemma goober_frame:
  "m_lootState (Update_GO_JUST_DEACTIVATED_goober env g) = m_lootState g"
  "m_respawnTime (Update_GO_JUST_DEACTIVATED_goober env g) = m_respawnTime g"
  "m_respawnDelayTime (Update_GO_JUST_DEACTIVATED_goober env g) = m_respawnDelayTime g"
  "m_spawnedByDefault (Update_GO_JUST_DEACTIVATED_goober env g) = m_spawnedByDefault g"
  "m_respawnCompatibilityMode (Update_GO_JUST_DEACTIVATED_goober env g)
     = m_respawnCompatibilityMode g"
  "m_spawnId (Update_GO_JUST_DEACTIVATED_goober env g) = m_spawnId g"
  "m_spellId (Update_GO_JUST_DEACTIVATED_goober env g) = m_spellId g"
  "GetOwnerGUID (Update_GO_JUST_DEACTIVATED_goober env g) = GetOwnerGUID g"
  "GetGoType (Update_GO_JUST_DEACTIVATED_goober env g) = GetGoType g"
  "filter schedules_respawn (go_calls (Update_GO_JUST_DEACTIVATED_goober env g))
     = filter schedules_respawn (go_calls g)"
  "filter leaves_map (go_calls (Update_GO_JUST_DEACTIVATED_goober env g))
     = filter leaves_map (go_calls g)"
  by (simp_all add: Update_GO_JUST_DEACTIVATED_goober_def SetGoState_frame foldl_go_call
      Let_def filter_map comp_def)

lemma Delete_frame:
  "m_lootState (Delete env g) = GO_NOT_READY"
  "m_respawnTime (Delete env g) = m_respawnTime g"
  "filter schedules_respawn (go_calls (Delete env g)) = filter schedules_respawn (go_calls g)"
  "filter leaves_map (go_calls (Delete env g))
     = filter leaves_map (go_calls g)
       @ [if m_spawnId g \<noteq> 0 \<and> IsPartOfAPool env \<noteq> 0
          then PoolMgr_UpdatePool (IsPartOfAPool env) else AddObjectToRemoveList]"
  by (simp_all add: Delete_def RemoveFromOwner_def SetLootState_frame SetGoState_frame
      go_call_def Let_def)

lemma summoned_frame:
  assumes "m_respawnTime g = 0"
  shows "m_respawnTime (Update_GO_JUST_DEACTIVATED_summoned env g) = 0"
    and "filter schedules_respawn (go_calls (Update_GO_JUST_DEACTIVATED_summoned env g))
           = filter schedules_respawn (go_calls g)"
    and "filter leaves_map (go_calls (Update_GO_JUST_DEACTIVATED_summoned env g))
           = filter leaves_map (go_calls g)
             @ [if m_spawnId g \<noteq> 0 \<and> IsPartOfAPool env \<noteq> 0
                then PoolMgr_UpdatePool (IsPartOfAPool env) else AddObjectToRemoveList]"
  using assms
  by (simp_all add: Update_GO_JUST_DEACTIVATED_summoned_def Delete_frame SetRespawnTime_def)

lemma despawn_frame:
  "m_lootState (Update_GO_JUST_DEACTIVATED_despawn env g) = GO_NOT_READY"
  "m_respawnTime (Update_GO_JUST_DEACTIVATED_despawn env g) = m_respawnTime g"
  "m_respawnDelayTime (Update_GO_JUST_DEACTIVATED_despawn env g) = m_respawnDelayTime g"
  "m_spawnedByDefault (Update_GO_JUST_DEACTIVATED_despawn env g) = m_spawnedByDefault g"
  "m_spawnId (Update_GO_JUST_DEACTIVATED_despawn env g) = m_spawnId g"
  "filter schedules_respawn (go_calls (Update_GO_JUST_DEACTIVATED_despawn env g))
     = filter schedules_respawn (go_calls g)"
  "filter leaves_map (go_calls (Update_GO_JUST_DEACTIVATED_despawn env g))
     = filter leaves_map (go_calls g)"
  by (simp_all add: Update_GO_JUST_DEACTIVATED_despawn_def SetLootState_frame go_call_def Let_def)

lemma respawn_frame:
  assumes "m_respawnTime g = 0" and "\<not> m_spawnedByDefault g"
  shows "snd (Update_GO_JUST_DEACTIVATED_respawn env g) = Return"
    and "m_respawnTime (fst (Update_GO_JUST_DEACTIVATED_respawn env g)) = 0"
    and "filter schedules_respawn (go_calls (fst (Update_GO_JUST_DEACTIVATED_respawn env g)))
           = filter schedules_respawn (go_calls g)"
    and "filter leaves_map (go_calls (fst (Update_GO_JUST_DEACTIVATED_respawn env g)))
           = filter leaves_map (go_calls g)
             @ (if m_respawnDelayTime g \<noteq> 0 \<and> m_spawnId g = 0
                then [AddObjectToRemoveList] else [])"
    and "m_respawnDelayTime g \<noteq> 0 \<and> m_spawnId g \<noteq> 0 \<longrightarrow>
           last (go_calls (fst (Update_GO_JUST_DEACTIVATED_respawn env g)))
             = DestroyForNearbyPlayers
           \<and> m_lootState (fst (Update_GO_JUST_DEACTIVATED_respawn env g)) = m_lootState g"
  using assms
  by (simp_all add: Update_GO_JUST_DEACTIVATED_respawn_def Delete_frame go_call_def Let_def)

lemma JUST_DEACTIVATED_not_default:
  assumes rt: "m_respawnTime g = 0" and nd: "\<not> m_spawnedByDefault g"
  shows "snd (Update_GO_JUST_DEACTIVATED env g) = Return
    \<and> m_respawnTime (fst (Update_GO_JUST_DEACTIVATED env g)) = 0
    \<and> filter schedules_respawn (go_calls (fst (Update_GO_JUST_DEACTIVATED env g)))
         = filter schedules_respawn (go_calls g)
    \<and> filter leaves_map (go_calls (fst (Update_GO_JUST_DEACTIVATED env g)))
         = filter leaves_map (go_calls g)
           @ (if \<not> (GetGoType g = GAMEOBJECT_TYPE_GOOBER
                       \<and> GetGameObjectOverride env = Some True)
                 \<and> (m_spellId g \<noteq> 0 \<or> GetOwnerGUID g \<noteq> 0
                      \<or> (m_respawnDelayTime g \<noteq> 0 \<and> m_spawnId g = 0))
              then [if m_spawnId g \<noteq> 0 \<and> IsPartOfAPool env \<noteq> 0
                    then PoolMgr_UpdatePool (IsPartOfAPool env) else AddObjectToRemoveList]
              else [])
    \<and> (\<not> (GetGoType g = GAMEOBJECT_TYPE_GOOBER \<and> GetGameObjectOverride env = Some True)
         \<and> m_spellId g = 0 \<and> GetOwnerGUID g = 0
         \<and> m_respawnDelayTime g \<noteq> 0 \<and> m_spawnId g \<noteq> 0
        \<longrightarrow> last (go_calls (fst (Update_GO_JUST_DEACTIVATED env g))) = DestroyForNearbyPlayers
            \<and> m_lootState (fst (Update_GO_JUST_DEACTIVATED env g)) = GO_NOT_READY)"
  using assms
  by (simp add: Update_GO_JUST_DEACTIVATED_def SetLootState_frame goober_frame summoned_frame
      despawn_frame respawn_frame go_call_def Let_def)

lemma ResetDoorOrButton_READY: "m_lootState g = GO_READY \<Longrightarrow> ResetDoorOrButton g = g"
  by (simp add: ResetDoorOrButton_def)

lemma READY_not_default:
  assumes "m_respawnCompatibilityMode g" and "m_lootState g = GO_READY"
    and "\<not> m_spawnedByDefault g" and "0 < m_respawnTime g"
    and "m_respawnTime g \<le> GetGameTime env" and "GetLinkedRespawnTime env = 0"
  shows "snd (Update_GO_READY_compatibility env g) = Return"
    and "m_lootState (fst (Update_GO_READY_compatibility env g)) = GO_JUST_DEACTIVATED"
    and "m_respawnTime (fst (Update_GO_READY_compatibility env g)) = 0"
    and "\<not> m_spawnedByDefault (fst (Update_GO_READY_compatibility env g))"
    and "GetGoType (fst (Update_GO_READY_compatibility env g)) = GetGoType g"
    and "m_spellId (fst (Update_GO_READY_compatibility env g)) = m_spellId g"
    and "m_spawnId (fst (Update_GO_READY_compatibility env g)) = m_spawnId g"
    and "m_respawnDelayTime (fst (Update_GO_READY_compatibility env g)) = m_respawnDelayTime g"
    and "GetOwnerGUID (fst (Update_GO_READY_compatibility env g))
           = (if GetGoType g = GAMEOBJECT_TYPE_FISHINGNODE \<and> owner_is_player env then 0
              else GetOwnerGUID g)"
    and "filter schedules_respawn (go_calls (fst (Update_GO_READY_compatibility env g)))
           = filter schedules_respawn (go_calls g)"
    and "filter leaves_map (go_calls (fst (Update_GO_READY_compatibility env g)))
           = filter leaves_map (go_calls g)"
  using assms
  by (simp_all add: Update_GO_READY_compatibility_def ResetDoorOrButton_READY SetLootState_frame
      go_call_def Let_def)

text \<open>
  Claim C4, as the code has it. Take an object in compatibility mode, in loot state
  \<^verbatim>\<open>GO_READY\<close>, not spawned by default, whose respawn time is over, at a call of
  \<^verbatim>\<open>Update\<close> at which the map reports no linked respawn time. That call clears the
  respawn time, sets the loot state to \<^verbatim>\<open>GO_JUST_DEACTIVATED\<close> and returns. The case
  \<^verbatim>\<open>GO_JUST_DEACTIVATED\<close> run on the result, at any later call, returns with the
  respawn time still cleared and without any call that saves a respawn time. It takes the
  object out of the map (\<^verbatim>\<open>Delete()\<close>: the remove list, or the pool of a pooled
  spawn) exactly when the object is no goober held back by \<^verbatim>\<open>GO_FLAG_NODESPAWN\<close>
  and either was summoned by a spell or has an owner, or has a respawn delay and no spawn
  id. An object that is no such goober, with a spawn id and a respawn delay, neither
  summoned nor owned, is not taken out: it is destroyed for the nearby players only, and
  stays in the map in loot state \<^verbatim>\<open>GO_NOT_READY\<close>.
\<close>

theorem C4_not_default:
  assumes "m_respawnCompatibilityMode go" and "m_lootState go = GO_READY"
    and "\<not> m_spawnedByDefault go" and "0 < m_respawnTime go"
    and "m_respawnTime go \<le> GetGameTime env" and "GetLinkedRespawnTime env = 0"
  shows "(let r1 = Update_GO_READY_compatibility env go; go1 = fst r1;
              r2 = Update_GO_JUST_DEACTIVATED env2 go1; go2 = fst r2;
              nodespawn_goober = (GetGoType go = GAMEOBJECT_TYPE_GOOBER
                                   \<and> GetGameObjectOverride env2 = Some True);
              summoned = (m_spellId go \<noteq> 0 \<or> GetOwnerGUID go1 \<noteq> 0)
          in snd r1 = Return \<and> m_lootState go1 = GO_JUST_DEACTIVATED \<and> m_respawnTime go1 = 0
             \<and> snd r2 = Return \<and> m_respawnTime go2 = 0
             \<and> filter schedules_respawn (go_calls go2) = filter schedules_respawn (go_calls go)
             \<and> filter leaves_map (go_calls go2)
                 = filter leaves_map (go_calls go)
                   @ (if \<not> nodespawn_goober
                         \<and> (summoned \<or> (m_respawnDelayTime go \<noteq> 0 \<and> m_spawnId go = 0))
                      then [if m_spawnId go \<noteq> 0 \<and> IsPartOfAPool env2 \<noteq> 0
                            then PoolMgr_UpdatePool (IsPartOfAPool env2)
                            else AddObjectToRemoveList]
                      else [])
             \<and> (\<not> nodespawn_goober \<and> \<not> summoned
                  \<and> m_respawnDelayTime go \<noteq> 0 \<and> m_spawnId go \<noteq> 0
                 \<longrightarrow> last (go_calls go2) = DestroyForNearbyPlayers
                     \<and> m_lootState go2 = GO_NOT_READY))"
proof -
  let ?go1 = "fst (Update_GO_READY_compatibility env go)"
  note t1 = READY_not_default [OF assms]
  note t2 = JUST_DEACTIVATED_not_default [OF t1(3) t1(4), of env2]
  show ?thesis
    using t2 by (simp add: Let_def t1)
qed

theorem C4_not_default_witness:
  "(let g = sample_go\<lparr>m_spawnedByDefault := False, m_spawnId := 0\<rparr>;
        go1 = fst (Update_GO_READY_compatibility sample_go_env g);
        go2 = fst (Update_GO_JUST_DEACTIVATED sample_go_env go1)
    in m_respawnCompatibilityMode g \<and> m_lootState g = GO_READY \<and> \<not> m_spawnedByDefault g
       \<and> 0 < m_respawnTime g \<and> m_respawnTime g \<le> GetGameTime sample_go_env
       \<and> GetLinkedRespawnTime sample_go_env = 0
       \<and> m_lootState go1 = GO_JUST_DEACTIVATED \<and> m_respawnTime go2 = 0
       \<and> filter schedules_respawn (go_calls go2) = []
       \<and> filter leaves_map (go_calls go2) = [AddObjectToRemoveList])"
  using C4_not_default [of "sample_go\<lparr>m_spawnedByDefault := False, m_spawnId := 0\<rparr>"
      sample_go_env sample_go_env]
  by (simp add: sample_go_def sample_go_env_def Let_def)

text \<open>
  The claim as it was stated, that the object is removed for good, fails on an object
  loaded from the database (spawn id 5): after the two calls it is still in the map, with
  no call of \<^verbatim>\<open>Delete()\<close> made.
\<close>

theorem C4_database_spawn_counterexample:
  "m_respawnCompatibilityMode (sample_go\<lparr>m_spawnedByDefault := False\<rparr>)
   \<and> m_lootState (sample_go\<lparr>m_spawnedByDefault := False\<rparr>) = GO_READY
   \<and> \<not> m_spawnedByDefault (sample_go\<lparr>m_spawnedByDefault := False\<rparr>)
   \<and> 0 < m_respawnTime (sample_go\<lparr>m_spawnedByDefault := False\<rparr>)
   \<and> m_respawnTime (sample_go\<lparr>m_spawnedByDefault := False\<rparr>) \<le> GetGameTime sample_go_env
   \<and> m_lootState (fst (Update_GO_READY_compatibility sample_go_env
                         (sample_go\<lparr>m_spawnedByDefault := False\<rparr>))) = GO_JUST_DEACTIVATED
   \<and> Update_GO_JUST_DEACTIVATED sample_go_env
        (fst (Update_GO_READY_compatibility sample_go_env
               (sample_go\<lparr>m_spawnedByDefault := False\<rparr>)))
       = (sample_go\<lparr>m_spawnedByDefault := False, m_lootState := GO_NOT_READY,
                      m_respawnTime := 0, m_model := Some False,
                      go_calls := [m_SkillupList_clear,
                                   AI_OnLootStateChanged GO_JUST_DEACTIVATED None,
                                   loot_clear,
                                   AI_OnLootStateChanged GO_NOT_READY None,
                                   DestroyForNearbyPlayers]\<rparr>, Return)"
  by (simp add: sample_go_def sample_go_env_def Update_GO_READY_compatibility_def
      Update_GO_JUST_DEACTIVATED_def Update_GO_JUST_DEACTIVATED_despawn_def
      Update_GO_JUST_DEACTIVATED_respawn_def SetLootState_def EnableCollision_def
      go_call_def Let_def)

section \<open>What the flood fill visits and returns\<close>

lemma flood_Nil: "Q s = [] \<Longrightarrow> flood inb fill duration s = s"
  by (subst flood.simps) simp

lemma flood_Cons:
  "Q s = front # rest \<Longrightarrow>
   flood inb fill duration s = flood inb fill duration (expand inb fill duration front s)"
  by (subst flood.simps) simp

lemma expanded_Nil: "Q s = [] \<Longrightarrow> expanded inb fill duration s = []"
  by (subst expanded.simps) simp

lemma expanded_Cons:
  "Q s = front # rest \<Longrightarrow>
   expanded inb fill duration s
     = front # expanded inb fill duration (expand inb fill duration front s)"
  by (subst expanded.simps) simp

lemma visit_boundsWarning:
  "boundsWarning (fst (visit inb front sh off))
     = (boundsWarning (fst sh) \<or> beyond_limit (fst front + fst off, snd front + snd off))"
  by (simp add: visit_def Let_def beyond_limit_def)

lemma foldl_visit_boundsWarning:
  "boundsWarning (fst (foldl (visit inb front) sh offs))
     = (boundsWarning (fst sh)
        \<or> list_ex beyond_limit (map (\<lambda>off. (fst front + fst off, snd front + snd off)) offs))"
  by (induction offs arbitrary: sh) (auto simp: visit_boundsWarning)

lemma expand_boundsWarning:
  "boundsWarning (expand inb fill duration front s)
     = (boundsWarning s \<or> has_neighbour_beyond_limit front)"
  by (simp add: expand_def Let_def foldl_visit_boundsWarning has_neighbour_beyond_limit_def
      neighbours_def)

lemma visit_subset:
  "set (Q (fst (visit inb front sh off))) \<subseteq> set (Q (fst sh)) \<union> box
   \<and> alreadyChecked (fst (visit inb front sh off)) \<subseteq> alreadyChecked (fst sh) \<union> box"
  using visit_cases [of inb front "fst sh" "snd sh" off] by auto

lemma foldl_visit_subset:
  "set (Q (fst (foldl (visit inb front) sh offs))) \<subseteq> set (Q (fst sh)) \<union> box
   \<and> alreadyChecked (fst (foldl (visit inb front) sh offs)) \<subseteq> alreadyChecked (fst sh) \<union> box"
proof (induction offs arbitrary: sh)
  case Nil
  show ?case by simp
next
  case (Cons off offs)
  from Cons.IH [of "visit inb front sh off"] visit_subset [of inb front sh off]
  show ?case by auto
qed

lemma expand_subset:
  "set (Q (expand inb fill duration front s)) \<subseteq> set (Q s) \<union> box
   \<and> alreadyChecked (expand inb fill duration front s) \<subseteq> alreadyChecked s \<union> box"
proof -
  let ?s1 = "fst (foldl (visit inb front) (s, False) offsets)"
  have "set (tl (Q ?s1)) \<subseteq> set (Q ?s1)"
    by (cases "Q ?s1") auto
  with foldl_visit_subset [of inb front "(s, False)" offsets]
  show ?thesis by (auto simp: expand_def Let_def)
qed

lemma flood_Q_empty: "Q (flood inb fill duration s) = []"
proof (induction inb fill duration s rule: flood.induct)
  case (1 inb fill duration s)
  show ?case
  proof (cases "Q s")
    case Nil
    then show ?thesis by (simp add: flood_Nil)
  next
    case (Cons front rest)
    with "1" show ?thesis by (simp add: flood_Cons)
  qed
qed

lemma flood_alreadyChecked:
  "set (Q s) \<subseteq> box \<Longrightarrow> alreadyChecked s \<subseteq> box \<Longrightarrow>
   alreadyChecked (flood inb fill duration s) \<subseteq> box"
proof (induction inb fill duration s rule: flood.induct)
  case (1 inb fill duration s)
  show ?case
  proof (cases "Q s")
    case Nil
    with "1.prems" show ?thesis by (simp add: flood_Nil)
  next
    case (Cons front rest)
    have "set (Q (expand inb fill duration front s)) \<subseteq> box"
      and "alreadyChecked (expand inb fill duration front s) \<subseteq> box"
      using expand_subset [of inb fill duration front s] "1.prems" by auto
    with "1.IH" [OF Cons] Cons show ?thesis by (simp add: flood_Cons)
  qed
qed

lemma expanded_in_box:
  "set (Q s) \<subseteq> box \<Longrightarrow> set (expanded inb fill duration s) \<subseteq> box"
proof (induction inb fill duration s rule: expanded.induct)
  case (1 inb fill duration s)
  show ?case
  proof (cases "Q s")
    case Nil
    then show ?thesis by (simp add: expanded_Nil)
  next
    case (Cons front rest)
    have "set (Q (expand inb fill duration front s)) \<subseteq> box"
      using expand_subset [of inb fill duration front s] "1.prems" by auto
    with "1.IH" [OF Cons] Cons "1.prems" show ?thesis by (simp add: expanded_Cons)
  qed
qed

lemma flood_boundsWarning:
  "boundsWarning (flood inb fill duration s)
     = (boundsWarning s \<or> list_ex has_neighbour_beyond_limit (expanded inb fill duration s))"
proof (induction inb fill duration s rule: flood.induct)
  case (1 inb fill duration s)
  show ?case
  proof (cases "Q s")
    case Nil
    then show ?thesis by (simp add: flood_Nil expanded_Nil)
  next
    case (Cons front rest)
    with "1.IH" [OF Cons] show ?thesis
      by (auto simp: flood_Cons expanded_Cons expand_boundsWarning)
  qed
qed

lemma box_iff: "c \<in> box \<longleftrightarrow> \<not> beyond_limit c"
  by (cases c) (auto simp: box_def beyond_limit_def)

lemma card_in_box: "A \<subseteq> box \<Longrightarrow> card A \<le> (2 * 750 + 1) ^ 2"
  using card_mono [OF finite_box, of A] card_box by simp

lemma flood_step:
  "Q s \<noteq> [] \<Longrightarrow>
   flood inb fill duration s = flood inb fill duration (expand inb fill duration (hd (Q s)) s)"
  by (cases "Q s") (simp_all add: flood_Cons)

lemma expanded_step:
  "Q s \<noteq> [] \<Longrightarrow>
   expanded inb fill duration s
     = hd (Q s) # expanded inb fill duration (expand inb fill duration (hd (Q s)) s)"
  by (cases "Q s") (simp_all add: expanded_Cons)

text \<open>
  The fill is a breadth-first search: the cells it takes from the queue are exactly the
  cells reachable from the start cell.
\<close>

lemma visit_push:
  "\<exists>pushes. Q (fst (visit inb front sh off)) = Q (fst sh) @ pushes
     \<and> set pushes \<subseteq> {n. n = (fst front + fst off, snd front + snd off)
                          \<and> \<not> beyond_limit n \<and> inb n}
     \<and> alreadyChecked (fst sh) \<subseteq> alreadyChecked (fst (visit inb front sh off))
     \<and> (\<forall>c \<in> alreadyChecked (fst (visit inb front sh off)).
           c \<in> alreadyChecked (fst sh) \<or> (inb c \<longrightarrow> c \<in> set pushes))
     \<and> (\<not> beyond_limit (fst front + fst off, snd front + snd off) \<longrightarrow>
           (fst front + fst off, snd front + snd off)
             \<in> alreadyChecked (fst (visit inb front sh off)))"
proof -
  let ?n = "(fst front + fst off, snd front + snd off)"
  show ?thesis
  proof (cases "beyond_limit ?n")
    case True
    then show ?thesis
      by (intro exI [of _ "[]"]) (simp add: visit_def Let_def beyond_limit_def)
  next
    case inside: False
    show ?thesis
    proof (cases "?n \<in> alreadyChecked (fst sh)")
      case True
      with inside show ?thesis
        by (intro exI [of _ "[]"]) (simp add: visit_def Let_def beyond_limit_def)
    next
      case new: False
      show ?thesis
      proof (cases "inb ?n")
        case True
        with inside new show ?thesis
          by (intro exI [of _ "[?n]"]) (auto simp: visit_def Let_def beyond_limit_def)
      next
        case False
        with inside new show ?thesis
          by (intro exI [of _ "[]"]) (auto simp: visit_def Let_def beyond_limit_def)
      qed
    qed
  qed
qed

lemma foldl_visit_push:
  "\<exists>pushes. Q (fst (foldl (visit inb front) sh offs)) = Q (fst sh) @ pushes
     \<and> set pushes \<subseteq> {n. n \<in> set (map (\<lambda>off. (fst front + fst off, snd front + snd off)) offs)
                          \<and> \<not> beyond_limit n \<and> inb n}
     \<and> alreadyChecked (fst sh) \<subseteq> alreadyChecked (fst (foldl (visit inb front) sh offs))
     \<and> (\<forall>c \<in> alreadyChecked (fst (foldl (visit inb front) sh offs)).
           c \<in> alreadyChecked (fst sh) \<or> (inb c \<longrightarrow> c \<in> set pushes))
     \<and> (\<forall>off \<in> set offs. \<not> beyond_limit (fst front + fst off, snd front + snd off) \<longrightarrow>
           (fst front + fst off, snd front + snd off)
             \<in> alreadyChecked (fst (foldl (visit inb front) sh offs)))"
proof (induction offs arbitrary: sh)
  case Nil
  show ?case by simp
next
  case (Cons off offs)
  let ?sh1 = "visit inb front sh off"
  let ?n = "(fst front + fst off, snd front + snd off)"
  let ?ns = "map (\<lambda>off. (fst front + fst off, snd front + snd off)) offs"
  let ?fin = "fst (foldl (visit inb front) ?sh1 offs)"
  from visit_push [of inb front sh off] obtain p1 where
    q1: "Q (fst ?sh1) = Q (fst sh) @ p1"
    and s1: "set p1 \<subseteq> {n. n = ?n \<and> \<not> beyond_limit n \<and> inb n}"
    and a1: "alreadyChecked (fst sh) \<subseteq> alreadyChecked (fst ?sh1)"
    and c1: "\<forall>c \<in> alreadyChecked (fst ?sh1). c \<in> alreadyChecked (fst sh) \<or> (inb c \<longrightarrow> c \<in> set p1)"
    and h1: "\<not> beyond_limit ?n \<longrightarrow> ?n \<in> alreadyChecked (fst ?sh1)"
    by blast
  from Cons.IH [of ?sh1] obtain p2 where
    q2: "Q ?fin = Q (fst ?sh1) @ p2"
    and s2: "set p2 \<subseteq> {n. n \<in> set ?ns \<and> \<not> beyond_limit n \<and> inb n}"
    and a2: "alreadyChecked (fst ?sh1) \<subseteq> alreadyChecked ?fin"
    and c2: "\<forall>c \<in> alreadyChecked ?fin. c \<in> alreadyChecked (fst ?sh1) \<or> (inb c \<longrightarrow> c \<in> set p2)"
    and h2: "\<forall>off \<in> set offs. \<not> beyond_limit (fst front + fst off, snd front + snd off) \<longrightarrow>
           (fst front + fst off, snd front + snd off) \<in> alreadyChecked ?fin"
    by blast
  have "Q ?fin = Q (fst sh) @ (p1 @ p2)" using q1 q2 by simp
  moreover have "set (p1 @ p2) \<subseteq> {n. n \<in> set (?n # ?ns) \<and> \<not> beyond_limit n \<and> inb n}"
    using s1 s2 by auto
  moreover have "alreadyChecked (fst sh) \<subseteq> alreadyChecked ?fin" using a1 a2 by blast
  moreover have "\<forall>c \<in> alreadyChecked ?fin.
      c \<in> alreadyChecked (fst sh) \<or> (inb c \<longrightarrow> c \<in> set (p1 @ p2))"
    using c1 c2 by auto
  moreover have "\<forall>o' \<in> set (off # offs).
      \<not> beyond_limit (fst front + fst o', snd front + snd o') \<longrightarrow>
      (fst front + fst o', snd front + snd o') \<in> alreadyChecked ?fin"
    using h1 h2 a2 by auto
  ultimately show ?case
    by (intro exI [of _ "p1 @ p2"]) simp
qed

lemma expand_push:
  assumes "Q s = front # rest"
  shows "\<exists>pushes. Q (expand inb fill duration front s) = rest @ pushes
     \<and> set pushes \<subseteq> {n. n \<in> set (neighbours front) \<and> \<not> beyond_limit n \<and> inb n}
     \<and> alreadyChecked s \<subseteq> alreadyChecked (expand inb fill duration front s)
     \<and> (\<forall>c \<in> alreadyChecked (expand inb fill duration front s).
           c \<in> alreadyChecked s \<or> (inb c \<longrightarrow> c \<in> set pushes))
     \<and> (\<forall>n \<in> set (neighbours front). \<not> beyond_limit n \<longrightarrow>
           n \<in> alreadyChecked (expand inb fill duration front s))"
proof -
  let ?s1 = "fst (foldl (visit inb front) (s, False) offsets)"
  from foldl_visit_push [of inb front "(s, False)" offsets] obtain p where
    q: "Q ?s1 = Q s @ p"
    and s: "set p \<subseteq> {n. n \<in> set (neighbours front) \<and> \<not> beyond_limit n \<and> inb n}"
    and a: "alreadyChecked s \<subseteq> alreadyChecked ?s1"
    and c: "\<forall>c \<in> alreadyChecked ?s1. c \<in> alreadyChecked s \<or> (inb c \<longrightarrow> c \<in> set p)"
    and h: "\<forall>off \<in> set offsets. \<not> beyond_limit (fst front + fst off, snd front + snd off) \<longrightarrow>
           (fst front + fst off, snd front + snd off) \<in> alreadyChecked ?s1"
    unfolding neighbours_def by auto
  have ac: "alreadyChecked (expand inb fill duration front s) = alreadyChecked ?s1"
    by (simp add: expand_def Let_def)
  have qq: "Q (expand inb fill duration front s) = rest @ p"
    using q assms by (simp add: expand_def Let_def)
  have hh: "\<forall>n \<in> set (neighbours front). \<not> beyond_limit n \<longrightarrow> n \<in> alreadyChecked ?s1"
    using h unfolding neighbours_def by auto
  show ?thesis
    using qq s a c hh ac by (intro exI [of _ p]) simp
qed

lemma expanded_reachable:
  "\<forall>c \<in> set (Q s). fill_reachable inb c \<Longrightarrow>
   \<forall>c \<in> set (expanded inb fill duration s). fill_reachable inb c"
proof (induction inb fill duration s rule: expanded.induct)
  case (1 inb fill duration s)
  show ?case
  proof (cases "Q s")
    case Nil
    then show ?thesis by (simp add: expanded_Nil)
  next
    case (Cons front rest)
    from expand_push [OF Cons, of inb fill duration] obtain p where
      q: "Q (expand inb fill duration front s) = rest @ p"
      and s: "set p \<subseteq> {n. n \<in> set (neighbours front) \<and> \<not> beyond_limit n \<and> inb n}"
      by blast
    have f: "fill_reachable inb front" using "1.prems" Cons by simp
    have "\<forall>c \<in> set (Q (expand inb fill duration front s)). fill_reachable inb c"
      using q s f "1.prems" Cons by (auto intro: fill_reachable.step)
    from "1.IH" [OF Cons this] f Cons show ?thesis by (simp add: expanded_Cons)
  qed
qed

lemma expanded_closed:
  assumes "\<forall>c \<in> E. \<forall>n \<in> set (neighbours c). \<not> beyond_limit n \<longrightarrow> n \<in> alreadyChecked s"
    and "\<forall>c \<in> alreadyChecked s. inb c \<longrightarrow> c \<in> set (Q s) \<union> E"
  shows "\<forall>c \<in> E \<union> set (expanded inb fill duration s).
           \<forall>n \<in> set (neighbours c). \<not> beyond_limit n \<and> inb n \<longrightarrow>
             n \<in> E \<union> set (expanded inb fill duration s)"
  using assms
proof (induction inb fill duration s arbitrary: E rule: expanded.induct)
  case (1 inb fill duration s)
  show ?case
  proof (cases "Q s")
    case Nil
    with "1.prems" show ?thesis by (auto simp: expanded_Nil)
  next
    case (Cons front rest)
    let ?s' = "expand inb fill duration front s"
    from expand_push [OF Cons, of inb fill duration] obtain p where
      q: "Q ?s' = rest @ p"
      and a: "alreadyChecked s \<subseteq> alreadyChecked ?s'"
      and c: "\<forall>c \<in> alreadyChecked ?s'. c \<in> alreadyChecked s \<or> (inb c \<longrightarrow> c \<in> set p)"
      and h: "\<forall>n \<in> set (neighbours front). \<not> beyond_limit n \<longrightarrow> n \<in> alreadyChecked ?s'"
      by blast
    have i1: "\<forall>c \<in> insert front E. \<forall>n \<in> set (neighbours c).
                \<not> beyond_limit n \<longrightarrow> n \<in> alreadyChecked ?s'"
      using "1.prems"(1) a h by blast
    have i2: "\<forall>c \<in> alreadyChecked ?s'. inb c \<longrightarrow> c \<in> set (Q ?s') \<union> insert front E"
      using "1.prems"(2) c q Cons by auto
    have e: "insert front E \<union> set (expanded inb fill duration ?s')
               = E \<union> set (expanded inb fill duration s)"
      using Cons by (simp add: expanded_Cons)
    from "1.IH" [OF Cons i1 i2] show ?thesis unfolding e .
  qed
qed

lemma expanded_init_reachable:
  "set (expanded inb fill duration fill_init) = {c. fill_reachable inb c}"
proof
  have "\<forall>c \<in> set (Q fill_init). fill_reachable inb c"
    by (simp add: fill_init_def fill_reachable.start)
  from expanded_reachable [OF this]
  show "set (expanded inb fill duration fill_init) \<subseteq> {c. fill_reachable inb c}" by blast
next
  let ?X = "set (expanded inb fill duration fill_init)"
  have closed: "\<forall>c \<in> ?X. \<forall>n \<in> set (neighbours c). \<not> beyond_limit n \<and> inb n \<longrightarrow> n \<in> ?X"
    using expanded_closed [of "{}" fill_init inb fill duration] by (simp add: fill_init_def)
  have origin: "(0, 0) \<in> ?X"
    by (simp add: expanded_step fill_init_def)
  have "fill_reachable inb c \<Longrightarrow> c \<in> ?X" for c
    by (induction rule: fill_reachable.induct) (use origin closed in blast)+
  then show "{c. fill_reachable inb c} \<subseteq> ?X" by blast
qed

text \<open>
  Claim C2. For every boundary predicate, from the initial locals (or any state of the
  locals whose queue and checked cells lie within the failsafe limit), the fill loop ends,
  with the queue empty. No cell it takes from the queue, and no cell it checks, has a
  coordinate beyond 750 or below -750, so both are at most \<open>(2 * 750 + 1)\<^sup>2\<close> distinct
  cells. A neighbour beyond the limit only sets \<^verbatim>\<open>boundsWarning\<close>: the state is
  otherwise as before and the loop goes on with the next offset. The flag is set at the end
  exactly when it was set before or a cell taken from the queue had a neighbour beyond the
  limit. From the initial locals the cells taken from the queue are the reachable ones, so
  \<^verbatim>\<open>VisualizeBoundary\<close> returns \<^verbatim>\<open>LANG_CREATURE_MOVEMENT_MAYBE_UNBOUNDED\<close>
  exactly when the region around the start position reaches a cell with a neighbour beyond
  the limit, and \<open>0\<close> otherwise.
\<close>

theorem C2_flood_fill:
  assumes "set (Q s) \<subseteq> box" and "alreadyChecked s \<subseteq> box"
  shows "Q (flood inb fill duration s) = []
    \<and> (\<forall>c \<in> set (expanded inb fill duration s). \<not> beyond_limit c)
    \<and> card (set (expanded inb fill duration s)) \<le> (2 * 750 + 1) ^ 2
    \<and> (\<forall>c \<in> alreadyChecked (flood inb fill duration s). \<not> beyond_limit c)
    \<and> card (alreadyChecked (flood inb fill duration s)) \<le> (2 * 750 + 1) ^ 2
    \<and> (beyond_limit (fst front + fst off, snd front + snd off) \<longrightarrow>
          visit inb front (s, h) off = (s\<lparr>boundsWarning := True\<rparr>, h))
    \<and> boundsWarning (flood inb fill duration s)
        = (boundsWarning s \<or> list_ex has_neighbour_beyond_limit (expanded inb fill duration s))
    \<and> set (expanded inb fill duration fill_init) = {c. fill_reachable inb c}
    \<and> (boundary ai = Some b \<and> b \<noteq> [] \<and> startPosition ai owner_GetPosition = Some start \<longrightarrow>
          fst (VisualizeBoundary env ai duration (Some owner_GetPosition) fill)
            = (if \<exists>c. fill_reachable (cell_in_boundary env ai start) c
                       \<and> has_neighbour_beyond_limit c
               then LANG_CREATURE_MOVEMENT_MAYBE_UNBOUNDED env else 0))"
proof -
  have e: "set (expanded inb fill duration s) \<subseteq> box"
    using assms(1) by (rule expanded_in_box)
  have a: "alreadyChecked (flood inb fill duration s) \<subseteq> box"
    using assms by (rule flood_alreadyChecked)
  have v: "beyond_limit (fst front + fst off, snd front + snd off) \<longrightarrow>
          visit inb front (s, h) off = (s\<lparr>boundsWarning := True\<rparr>, h)"
    by (simp add: visit_def beyond_limit_def Let_def)
  have w: "boundsWarning (flood (cell_in_boundary env ai start) fill duration fill_init)
        = (\<exists>c. fill_reachable (cell_in_boundary env ai start) c \<and> has_neighbour_beyond_limit c)"
    using expanded_init_reachable [of "cell_in_boundary env ai start" fill duration]
    by (auto simp: flood_boundsWarning fill_init_def list_ex_iff)
  have vb: "boundary ai = Some b \<and> b \<noteq> [] \<and> startPosition ai owner_GetPosition = Some start \<longrightarrow>
          fst (VisualizeBoundary env ai duration (Some owner_GetPosition) fill)
            = (if \<exists>c. fill_reachable (cell_in_boundary env ai start) c
                       \<and> has_neighbour_beyond_limit c
               then LANG_CREATURE_MOVEMENT_MAYBE_UNBOUNDED env else 0)"
    using w by (simp add: VisualizeBoundary_def Let_def)
  from e have e': "\<forall>c \<in> set (expanded inb fill duration s). \<not> beyond_limit c"
    using box_iff by blast
  from a have a': "\<forall>c \<in> alreadyChecked (flood inb fill duration s). \<not> beyond_limit c"
    using box_iff by blast
  show ?thesis
    using flood_Q_empty [of inb fill duration s] e' card_in_box [OF e] a' card_in_box [OF a] v
      flood_boundsWarning [of inb fill duration s]
      expanded_init_reachable [of inb fill duration] vb
    by blast
qed

lemma eval_single:
  "VisualizeBoundary grid_env single_cell_ai 5 (Some (0, 0)) False
     = (0, [((6, 6), \<lparr>cell = (0, 0), despawnTime = 5000, hasOutOfBoundsNeighbor = True\<rparr>)])"
  by (simp add: VisualizeBoundary_def startPosition_def IsInBoundary_def single_cell_ai_def
      grid_env_def cell_in_boundary_def fill_init_def flood_step flood_Nil expand_def visit_def
      offsets_def BOUNDARY_VISUALIZE_FAILSAFE_LIMIT_def IN_MILLISECONDS_def Let_def)

lemma eval_single_expanded:
  "expanded (cell_in_boundary grid_env single_cell_ai (6, 6)) False 5 fill_init = [(0, 0)]"
  by (simp add: IsInBoundary_def single_cell_ai_def
      grid_env_def cell_in_boundary_def fill_init_def expanded_step expanded_Nil expand_def visit_def
      offsets_def BOUNDARY_VISUALIZE_FAILSAFE_LIMIT_def IN_MILLISECONDS_def Let_def)

lemma quadrant_row_reachable:
  "k \<le> 750 \<Longrightarrow> fill_reachable (cell_in_boundary grid_env quadrant_ai (5, 0)) (int k, 0)"
proof (induction k)
  case 0
  show ?case by (simp add: fill_reachable.start)
next
  case (Suc k)
  then have r: "fill_reachable (cell_in_boundary grid_env quadrant_ai (5, 0)) (int k, 0)"
    by simp
  have n: "(int (Suc k), 0) \<in> set (neighbours (int k, 0))"
    by (simp add: neighbours_def offsets_def)
  have b: "\<not> beyond_limit (int (Suc k), 0)"
    using Suc.prems by (simp add: beyond_limit_def BOUNDARY_VISUALIZE_FAILSAFE_LIMIT_def)
  have i: "cell_in_boundary grid_env quadrant_ai (5, 0) (int (Suc k), 0)"
    by (simp add: cell_in_boundary_def grid_env_def quadrant_ai_def IsInBoundary_def)
  from fill_reachable.step [OF r n b i] show ?case .
qed

theorem C2_flood_fill_witness:
  "set (Q fill_init) \<subseteq> box \<and> alreadyChecked fill_init \<subseteq> box
   \<and> expanded (cell_in_boundary grid_env single_cell_ai (6, 6)) False 5 fill_init = [(0, 0)]
   \<and> Q (flood (cell_in_boundary grid_env single_cell_ai (6, 6)) False 5 fill_init) = []
   \<and> \<not> boundsWarning (flood (cell_in_boundary grid_env single_cell_ai (6, 6)) False 5 fill_init)
   \<and> VisualizeBoundary grid_env single_cell_ai 5 (Some (0, 0)) False
       = (0, [((6, 6), \<lparr>cell = (0, 0), despawnTime = 5000, hasOutOfBoundsNeighbor = True\<rparr>)])
   \<and> startPosition quadrant_ai (5, 0) = Some (5, 0)
   \<and> fill_reachable (cell_in_boundary grid_env quadrant_ai (5, 0)) (750, 0)
   \<and> has_neighbour_beyond_limit (750, 0)
   \<and> fst (VisualizeBoundary grid_env quadrant_ai 5 (Some (5, 0)) False) = 3"
proof -
  have p1: "set (Q fill_init) \<subseteq> box" and p2: "alreadyChecked fill_init \<subseteq> box"
    by (simp_all add: fill_init_def box_def BOUNDARY_VISUALIZE_FAILSAFE_LIMIT_def)
  have n: "has_neighbour_beyond_limit (750, 0)"
    by (simp add: has_neighbour_beyond_limit_def neighbours_def offsets_def beyond_limit_def
        BOUNDARY_VISUALIZE_FAILSAFE_LIMIT_def)
  have m: "\<not> has_neighbour_beyond_limit (0, 0)"
    by (simp add: has_neighbour_beyond_limit_def neighbours_def offsets_def beyond_limit_def
        BOUNDARY_VISUALIZE_FAILSAFE_LIMIT_def)
  have i: "\<not> boundsWarning fill_init"
    by (simp add: fill_init_def)
  have r: "fill_reachable (cell_in_boundary grid_env quadrant_ai (5, 0)) (750, 0)"
    using quadrant_row_reachable [of 750] by simp
  have sp: "startPosition quadrant_ai (5, 0) = Some (5, 0)"
    by (simp add: startPosition_def quadrant_ai_def IsInBoundary_def)
  have bq: "boundary quadrant_ai = Some [\<lambda>p. 0 \<le> fst p, \<lambda>p. 0 \<le> snd p]
            \<and> [\<lambda>p::int \<times> int. 0 \<le> fst p, \<lambda>p. 0 \<le> snd p] \<noteq> []"
    by (simp add: quadrant_ai_def)
  have ex: "\<exists>c. fill_reachable (cell_in_boundary grid_env quadrant_ai (5, 0)) c
                 \<and> has_neighbour_beyond_limit c"
    using r n by blast
  have q: "fst (VisualizeBoundary grid_env quadrant_ai 5 (Some (5, 0)) False) = 3"
    using C2_flood_fill [OF p1 p2, of "cell_in_boundary grid_env quadrant_ai (5, 0)" False 5
        "(0, 0)" "(1, 0)" False quadrant_ai "[\<lambda>p. 0 \<le> fst p, \<lambda>p. 0 \<le> snd p]" "(5, 0)" "(5, 0)"
        grid_env]
      bq sp ex
    by (simp add: grid_env_def)
  show ?thesis
    using C2_flood_fill [OF p1 p2, of "cell_in_boundary grid_env single_cell_ai (6, 6)" False 5
        "(0, 0)" "(1, 0)" False single_cell_ai "[\<lambda>p. p = (6, 6)]" "(0, 0)" "(6, 6)" grid_env]
      eval_single eval_single_expanded p1 p2 n m i r sp q
    by simp
qed

end
